theory Spec2Isabelle
  imports Main
begin

section \<open>The learn command of the CRFsuite frontend (frontend/learn.c)\<close>

subsection \<open>Memory: blocks obtained from malloc\<close>

text \<open>
  The C heap as a list of cells; an address is an index into it. A block is never handed out
  twice: \<open>malloc\<close> appends a cell, \<open>free\<close> marks it, and a pointer to a freed block stays
  invalid for ever. A pointer is \<open>addr option\<close>, with \<open>None\<close> for \<open>NULL\<close>. Allocation is
  taken to succeed (memory is unbounded); the checks the source makes on its result are kept.
  A block holds either bytes (a \<open>char\<close> array) or pointers (the \<open>char **\<close> array of the
  options).
\<close>

type_synonym addr = nat

datatype block = Chars string | Ptrs "addr option list"

datatype cell = Live block | Freed

type_synonym heap = "cell list"

datatype error = InvalidFree | InvalidRead | InvalidWrite

definition NUL :: char where
  "NUL = CHR 0x00"

text \<open>The C string a \<open>char\<close> sequence denotes: everything before the first NUL.\<close>

definition cstr :: "string \<Rightarrow> string" where
  "cstr s = takeWhile (\<lambda>c. c \<noteq> NUL) s"

definition strlen :: "string \<Rightarrow> nat" where
  "strlen s = length (cstr s)"

definition malloc :: "nat \<Rightarrow> heap \<Rightarrow> addr option \<times> heap" where
  "malloc n h = (Some (length h), h @ [Live (Chars (replicate n NUL))])"

text \<open>\<open>free(NULL)\<close> does nothing; freeing anything but a live block is undefined in C.\<close>

fun free :: "addr option \<Rightarrow> heap \<Rightarrow> error + heap" where
  "free None h = Inr h"
| "free (Some a) h =
     (if a < length h \<and> h ! a \<noteq> Freed then Inr (h[a := Freed]) else Inl InvalidFree)"

text \<open>
  \<open>realloc(p, sizeof(char*) * n)\<close> on a pointer array: a new block of \<open>n\<close> slots with the
  old contents, the old block released. \<open>realloc(NULL, ...)\<close> is \<open>malloc\<close>.
\<close>

definition realloc :: "addr option \<Rightarrow> nat \<Rightarrow> heap \<Rightarrow> error + (addr option \<times> heap)" where
  "realloc p n h =
     (case p of
        None \<Rightarrow> Inr (Some (length h), h @ [Live (Ptrs (replicate n None))])
      | Some a \<Rightarrow>
          (if a < length h then
             (case h ! a of
                Live (Ptrs ps) \<Rightarrow>
                  Inr (Some (length h),
                       h[a := Freed] @ [Live (Ptrs (take n ps @ replicate (n - length ps) None))])
              | _ \<Rightarrow> Inl InvalidFree)
           else Inl InvalidFree))"

text \<open>\<open>p[i]\<close> and \<open>p[i] = v\<close> on a pointer array.\<close>

definition load_ptr :: "addr option \<Rightarrow> nat \<Rightarrow> heap \<Rightarrow> error + addr option" where
  "load_ptr p i h =
     (case p of
        None \<Rightarrow> Inl InvalidRead
      | Some a \<Rightarrow>
          (if a < length h then
             (case h ! a of
                Live (Ptrs ps) \<Rightarrow> (if i < length ps then Inr (ps ! i) else Inl InvalidRead)
              | _ \<Rightarrow> Inl InvalidRead)
           else Inl InvalidRead))"

definition store_ptr :: "addr option \<Rightarrow> nat \<Rightarrow> addr option \<Rightarrow> heap \<Rightarrow> error + heap" where
  "store_ptr p i v h =
     (case p of
        None \<Rightarrow> Inl InvalidWrite
      | Some a \<Rightarrow>
          (if a < length h then
             (case h ! a of
                Live (Ptrs ps) \<Rightarrow>
                  (if i < length ps then Inr (h[a := Live (Ptrs (ps[i := v]))])
                   else Inl InvalidWrite)
              | _ \<Rightarrow> Inl InvalidWrite)
           else Inl InvalidWrite))"

text \<open>
  The C string at \<open>p + off\<close>: the bytes up to the first NUL, which must lie inside the
  block. \<open>p[off] = c\<close> writes one byte.
\<close>

definition load_str :: "addr option \<Rightarrow> nat \<Rightarrow> heap \<Rightarrow> error + string" where
  "load_str p off h =
     (case p of
        None \<Rightarrow> Inl InvalidRead
      | Some a \<Rightarrow>
          (if a < length h then
             (case h ! a of
                Live (Chars cs) \<Rightarrow>
                  (if NUL \<in> set (drop off cs) then Inr (cstr (drop off cs)) else Inl InvalidRead)
              | _ \<Rightarrow> Inl InvalidRead)
           else Inl InvalidRead))"

definition store_char :: "addr option \<Rightarrow> nat \<Rightarrow> char \<Rightarrow> heap \<Rightarrow> error + heap" where
  "store_char p off c h =
     (case p of
        None \<Rightarrow> Inl InvalidWrite
      | Some a \<Rightarrow>
          (if a < length h then
             (case h ! a of
                Live (Chars cs) \<Rightarrow>
                  (if off < length cs then Inr (h[a := Live (Chars (cs[off := c]))])
                   else Inl InvalidWrite)
              | _ \<Rightarrow> Inl InvalidWrite)
           else Inl InvalidWrite))"

text \<open>\<open>strchr(s, c)\<close>: the offset of the first \<open>c\<close> in the C string, or \<open>NULL\<close>.\<close>

definition strchr :: "string \<Rightarrow> char \<Rightarrow> nat option" where
  "strchr s c =
     (if c \<in> set (cstr s) then Some (length (takeWhile (\<lambda>x. x \<noteq> c) (cstr s))) else None)"

text \<open>
  \<open>mystrdup\<close>: a block of \<open>strlen(src)+1\<close> bytes, filled by \<open>strcpy\<close> when the allocation
  did not return \<open>NULL\<close>.
\<close>

definition mystrdup :: "string \<Rightarrow> heap \<Rightarrow> addr option \<times> heap" where
  "mystrdup src h =
     (case malloc (strlen src + 1) h of
        (dst, h') \<Rightarrow>
          (case dst of
             None \<Rightarrow> (dst, h')
           | Some a \<Rightarrow> (dst, h'[a := Live (Chars (cstr src @ [NUL]))])))"

subsection \<open>The options\<close>

text \<open>The field \<open>help\<close> of the source is \<open>help_flag\<close> here.\<close>

record learn_option_t =
  model :: "addr option"
  algorithm :: "addr option"
  type :: "addr option"
  holdout :: int
  help_flag :: int
  num_params :: nat
  params :: "addr option"

definition learn_option_init :: "heap \<Rightarrow> learn_option_t \<times> heap" where
  "learn_option_init h0 =
     (case mystrdup ''crfsuite.model'' h0 of (m, h1) \<Rightarrow>
      case mystrdup ''lbfgs'' h1 of (a, h2) \<Rightarrow>
      case mystrdup ''dyad'' h2 of (t, h3) \<Rightarrow>
        (\<lparr>model = m, algorithm = a, type = t, holdout = - 1, help_flag = 0,
          num_params = 0, params = None\<rparr>, h3))"

text \<open>
  \<open>learn_option_finish\<close>: \<open>free(opt->model)\<close>, then \<open>free(opt->params[i])\<close> for
  \<open>i = 0 .. num_params-1\<close>, then \<open>free(opt->params)\<close>. The loop is \<open>free_params\<close>,
  with the index \<open>i\<close> and the number \<open>k\<close> of iterations left.
\<close>

fun free_params :: "addr option \<Rightarrow> nat \<Rightarrow> nat \<Rightarrow> heap \<Rightarrow> error + heap" where
  "free_params p i 0 h = Inr h"
| "free_params p i (Suc k) h =
     (case load_ptr p i h of
        Inl e \<Rightarrow> Inl e
      | Inr q \<Rightarrow>
          (case free q h of
             Inl e \<Rightarrow> Inl e
           | Inr h' \<Rightarrow> free_params p (Suc i) k h'))"

definition learn_option_finish :: "learn_option_t \<Rightarrow> heap \<Rightarrow> error + heap" where
  "learn_option_finish opt h =
     (case free (model opt) h of
        Inl e \<Rightarrow> Inl e
      | Inr h1 \<Rightarrow>
          (case free_params (params opt) 0 (num_params opt) h1 of
             Inl e \<Rightarrow> Inl e
           | Inr h2 \<Rightarrow> free (params opt) h2))"

subsection \<open>The option map\<close>

text \<open>
  Modelled from the spec: the macros of option.h (\<open>BEGIN_OPTION_MAP\<close>, \<open>ON_OPTION\<close>,
  \<open>ON_OPTION_WITH_ARG\<close>, \<open>SHORTOPT\<close>, \<open>LONGOPT\<close>, \<open>END_OPTION_MAP\<close>) are not part of
  learn.c. Following the flag list of the spec (\<open>-m/--model=PATH\<close>, ...), the handler is
  called with the flag it is to treat, short (\<open>-x\<close>) or long (\<open>--name\<close>), and the flag's
  argument; \<open>SHORTOPT\<close> and \<open>LONGOPT\<close> test which flag it is. The handler answers the
  number of arguments it used (1 for an entry \<open>WITH_ARG\<close>, 0 otherwise), or \<open>-1\<close> for a
  flag that no entry treats.
\<close>

datatype optkey = Short char | Long string

definition SHORTOPT :: "optkey \<Rightarrow> char \<Rightarrow> bool" where
  "SHORTOPT k x = (k = Short x)"

definition LONGOPT :: "optkey \<Rightarrow> string \<Rightarrow> bool" where
  "LONGOPT k x = (k = Long x)"

type_synonym pstate = "learn_option_t \<times> heap"

text \<open>
  \<open>parse_learn_options\<close>, entry by entry in the order of the source. \<open>atoi\<close> is the C
  library's, taken as a parameter.
\<close>

definition parse_learn_options ::
  "(string \<Rightarrow> int) \<Rightarrow> optkey \<Rightarrow> string \<Rightarrow> pstate \<Rightarrow> error + (int \<times> pstate)" where
  "parse_learn_options atoi k arg s =
     (case s of (opt, h) \<Rightarrow>
        if SHORTOPT k CHR ''m'' \<or> LONGOPT k ''model'' then
          (case free (model opt) h of
             Inl e \<Rightarrow> Inl e
           | Inr h1 \<Rightarrow>
               (case mystrdup arg h1 of (p, h2) \<Rightarrow> Inr (1, opt\<lparr>model := p\<rparr>, h2)))
        else if SHORTOPT k CHR ''t'' \<or> LONGOPT k ''test'' then
          Inr (1, opt\<lparr>holdout := atoi arg - 1\<rparr>, h)
        else if SHORTOPT k CHR ''h'' \<or> LONGOPT k ''help'' then
          Inr (0, opt\<lparr>help_flag := 1\<rparr>, h)
        else if SHORTOPT k CHR ''a'' \<or> LONGOPT k ''algorithm'' then
          (case free (algorithm opt) h of
             Inl e \<Rightarrow> Inl e
           | Inr h1 \<Rightarrow>
               (case mystrdup arg h1 of (p, h2) \<Rightarrow> Inr (1, opt\<lparr>algorithm := p\<rparr>, h2)))
        else if SHORTOPT k CHR ''f'' \<or> LONGOPT k ''feature'' then
          (case free (type opt) h of
             Inl e \<Rightarrow> Inl e
           | Inr h1 \<Rightarrow>
               (case mystrdup arg h1 of (p, h2) \<Rightarrow> Inr (1, opt\<lparr>model := p\<rparr>, h2)))
        else if SHORTOPT k CHR ''p'' \<or> LONGOPT k ''param'' then
          (case realloc (params opt) (num_params opt + 1) h of
             Inl e \<Rightarrow> Inl e
           | Inr (ps, h1) \<Rightarrow>
               (case mystrdup arg h1 of (p, h2) \<Rightarrow>
                  (case store_ptr ps (num_params opt) p h2 of
                     Inl e \<Rightarrow> Inl e
                   | Inr h3 \<Rightarrow>
                       Inr (1, opt\<lparr>params := ps, num_params := num_params opt + 1\<rparr>, h3))))
        else Inr (- 1, opt, h))"

text \<open>
  Modelled from the spec: \<open>option_parse\<close> (option.c) is not part of learn.c. By the spec
  it walks the flags of the argument list, hands each to the handler, fails (a negative
  result) on a flag the handler does not treat, and otherwise answers the index of the
  first argument that is not a flag. How the argument list splits into flags and their
  arguments is left to the parameter \<open>scan\<close>: the calls of the handler the list gives
  rise to, in order, and the index answered when every call is accepted (negative for a
  malformed list).
\<close>

type_synonym scanner = "string list \<Rightarrow> (optkey \<times> string) list \<times> int"

fun run_handlers ::
  "(optkey \<Rightarrow> string \<Rightarrow> pstate \<Rightarrow> error + (int \<times> pstate)) \<Rightarrow> (optkey \<times> string) list \<Rightarrow>
     pstate \<Rightarrow> error + (bool \<times> pstate)" where
  "run_handlers handler [] s = Inr (True, s)"
| "run_handlers handler (c # cs) s =
     (case handler (fst c) (snd c) s of
        Inl e \<Rightarrow> Inl e
      | Inr (used, s') \<Rightarrow> (if used < 0 then Inr (False, s') else run_handlers handler cs s'))"

definition option_parse ::
  "scanner \<Rightarrow> string list \<Rightarrow> (optkey \<Rightarrow> string \<Rightarrow> pstate \<Rightarrow> error + (int \<times> pstate)) \<Rightarrow>
     pstate \<Rightarrow> error + (int \<times> pstate)" where
  "option_parse scan argv handler s =
     (case run_handlers handler (fst (scan argv)) s of
        Inl e \<Rightarrow> Inl e
      | Inr (ok, s') \<Rightarrow> Inr (if ok then snd (scan argv) else - 1, s'))"

subsection \<open>What the run does to the outside\<close>

text \<open>
  Every call that leaves learn.c is recorded, in order, as an event: output on a stream
  (the format and its arguments; \<open>Elapsed\<close> stands for the floating-point seconds of
  \<open>%.3f\<close>), and the calls into the library (crfsuite.h), the data reader (readdata.h)
  and the C library's files. An object of the library (a dictionary, a trainer) is named
  by a number.
\<close>

datatype stream = Stdin | Stdout | Stderr | File string

datatype farg = S string | I int | Elapsed

datatype event =
    Fprintf stream string "farg list"
  | Fflush stream
  | DataInit
  | DataFinish
  | Create string "nat option"
  | Release nat
  | GetParams nat
  | SetParam string "string option" int
  | ReleaseParams
  | Fopen string bool
  | ReadData stream int int
  | Fclose stream
  | SetMessageCallback nat
  | Train string int int

text \<open>
  The collaborators are parameters of the run. What a call answers may depend on all that
  happened before (the events so far) and on its arguments:
  \<^item> \<open>option_scan\<close>, \<open>atoi\<close>: see \<open>option_parse\<close> and \<open>parse_learn_options\<close>;
  \<^item> \<open>create_result\<close>: what \<open>crf_create_instance(iid, &ptr)\<close> returns;
  \<^item> \<open>set_result\<close>: what \<open>params->set(params, name, value)\<close> returns;
  \<^item> \<open>fopen_ok\<close>: whether \<open>fopen(name, "r")\<close> is not \<open>NULL\<close>;
  \<^item> \<open>read_result\<close>: what \<open>read_data(fp, fpo, &data, attrs, labels, group)\<close> returns;
  \<^item> \<open>train_result\<close>: what \<open>trainer->train(...)\<close> returns, given the model path and the
    holdout group;
  \<^item> \<open>data_num_instances\<close>, \<open>data_totalitems\<close>, \<open>dict_num\<close>: the statistics printed
    after reading; \<open>timestamp\<close>: the formatted time.
\<close>

record env =
  option_scan :: scanner
  atoi :: "string \<Rightarrow> int"
  create_result :: "event list \<Rightarrow> string \<Rightarrow> int"
  set_result :: "event list \<Rightarrow> string \<Rightarrow> string option \<Rightarrow> int"
  fopen_ok :: "event list \<Rightarrow> string \<Rightarrow> bool"
  read_result :: "event list \<Rightarrow> stream \<Rightarrow> int \<Rightarrow> int"
  train_result :: "event list \<Rightarrow> string \<Rightarrow> int \<Rightarrow> int"
  data_num_instances :: "event list \<Rightarrow> int"
  data_totalitems :: "event list \<Rightarrow> int"
  dict_num :: "event list \<Rightarrow> nat \<Rightarrow> int"
  timestamp :: "event list \<Rightarrow> string"

text \<open>
  Modelled from the spec: \<open>crf_create_instance\<close> (crfsuite.h) is not part of learn.c. By
  the spec it creates an object of the kind asked for and hands it out; learn.c reads a
  zero result as failure. On success the pointer is set to a new object, named by the
  number of events before its creation; on failure the pointer is left as it was
  (\<open>NULL\<close>).
\<close>

definition crf_create_instance ::
  "env \<Rightarrow> string \<Rightarrow> event list \<Rightarrow> int \<times> nat option \<times> event list" where
  "crf_create_instance E iid tr =
     (let r = create_result E tr iid;
          p = (if r \<noteq> 0 then Some (length tr) else None)
      in (r, p, tr @ [Create iid p]))"

subsection \<open>The run\<close>

text \<open>The variables of \<open>main_learn\<close> that outlive a step, the heap and the events so far.\<close>

record frame =
  opt :: learn_option_t
  trainer :: "nat option"
  labels :: "nat option"
  attrs :: "nat option"
  ret :: int
  mem :: heap
  out :: "event list"

definition emit :: "event list \<Rightarrow> frame \<Rightarrow> frame" where
  "emit es f = f\<lparr>out := out f @ es\<rparr>"

text \<open>\<open>SAFE_RELEASE(obj)\<close>: \<open>if ((obj) != NULL) { (obj)->release(obj); (obj) = NULL; }\<close>\<close>

definition SAFE_RELEASE :: "nat option \<Rightarrow> event list \<Rightarrow> nat option \<times> event list" where
  "SAFE_RELEASE obj tr = (case obj of None \<Rightarrow> (None, tr) | Some x \<Rightarrow> (None, tr @ [Release x]))"

definition show_usage :: "stream \<Rightarrow> string \<Rightarrow> string \<Rightarrow> event list" where
  "show_usage fp argv0 command =
     [Fprintf fp ''USAGE: %s %s [OPTIONS] [DATA]\<newline>'' [S (cstr argv0), S (cstr command)],
      Fprintf fp ''Obtain a model from a training set of instances given by a file (DATA).\<newline>'' [],
      Fprintf fp ''If argument DATA is omitted or '-', this utility reads a data from STDIN.\<newline>'' [],
      Fprintf fp ''\<newline>'' [],
      Fprintf fp ''OPTIONS:\<newline>'' [],
      Fprintf fp ''    -m, --model=MODEL   Store the obtained model in a file (MODEL)\<newline>'' [],
      Fprintf fp ''    -t, --test=TEST     Report the performance of the model on a data (TEST)\<newline>'' [],
      Fprintf fp ''    -p, --param=NAME=VALUE  Set the parameter NAME to VALUE\<newline>'' [],
      Fprintf fp ''    -h, --help          Show the usage of this command and exit\<newline>'' []]"

text \<open>The label \<open>force_exit\<close> and what follows it; \<open>ret f\<close> is what \<open>main_learn\<close> returns.\<close>

definition force_exit :: "frame \<Rightarrow> error + frame" where
  "force_exit f =
     (case SAFE_RELEASE (trainer f) (out f) of (t, tr1) \<Rightarrow>
      case SAFE_RELEASE (labels f) tr1 of (l, tr2) \<Rightarrow>
      case SAFE_RELEASE (attrs f) tr2 of (a, tr3) \<Rightarrow>
        (case learn_option_finish (opt f) (mem f) of
           Inl e \<Rightarrow> Inl e
         | Inr h \<Rightarrow>
             Inr (f\<lparr>trainer := t, labels := l, attrs := a, mem := h,
                    out := tr3 @ [DataFinish]\<rparr>)))"

text \<open>
  "Create dictionaries for attributes and labels", "Create a trainer instance". The result
  is \<open>Inl\<close> when the step jumps to \<open>force_exit\<close>, \<open>Inr\<close> when the run goes on.
\<close>

definition create_instances :: "env \<Rightarrow> frame \<Rightarrow> frame + frame" where
  "create_instances E f =
     (case crf_create_instance E ''dictionary'' (out f) of (r1, a, tr1) \<Rightarrow>
        if r1 = 0 then
          Inl (f\<lparr>attrs := a, ret := 1,
                 out := tr1 @ [Fprintf Stderr ''ERROR: Failed to create a dictionary instance.\<newline>'' []]\<rparr>)
        else
          (case crf_create_instance E ''dictionary'' tr1 of (r2, l, tr2) \<Rightarrow>
             if r2 = 0 then
               Inl (f\<lparr>attrs := a, labels := l, ret := 1,
                      out := tr2 @ [Fprintf Stderr ''ERROR: Failed to create a dictionary instance.\<newline>'' []]\<rparr>)
             else
               (case crf_create_instance E ''train/crf1d/lbfgs'' tr2 of (r3, t, tr3) \<Rightarrow>
                  if r3 = 0 then
                    Inl (f\<lparr>attrs := a, labels := l, trainer := t, ret := 1,
                           out := tr3 @ [Fprintf Stderr ''ERROR: Failed to create a trainer instance.\<newline>'' []]\<rparr>)
                  else Inr (f\<lparr>attrs := a, labels := l, trainer := t, ret := r3, out := tr3\<rparr>))))"

text \<open>
  "Set parameters": the body of the loop for index \<open>i\<close>, then the loop (\<open>k\<close> iterations
  left). \<open>strchr\<close> finds the first \<open>=\<close> of the stored string, \<open>*value++ = 0\<close> overwrites it
  with NUL, and \<open>set\<close> receives the C strings at \<open>name\<close> and at \<open>value\<close> (or \<open>NULL\<close>). What
  \<open>set\<close> returns is dropped.
\<close>

definition set_parameter :: "env \<Rightarrow> nat \<Rightarrow> frame \<Rightarrow> error + frame" where
  "set_parameter E i f =
     (case load_ptr (params (opt f)) i (mem f) of
        Inl e \<Rightarrow> Inl e
      | Inr name \<Rightarrow>
     (case trainer f of
        None \<Rightarrow> Inl InvalidRead
      | Some t \<Rightarrow>
     (case load_str name 0 (mem f) of
        Inl e \<Rightarrow> Inl e
      | Inr s \<Rightarrow>
     (case (case strchr s CHR ''='' of
              None \<Rightarrow> Inr (None, mem f)
            | Some k \<Rightarrow>
                (case store_char name k NUL (mem f) of
                   Inl e \<Rightarrow> Inl e
                 | Inr h1 \<Rightarrow> Inr (Some (Suc k), h1))) of
        Inl e \<Rightarrow> Inl e
      | Inr (value, h1) \<Rightarrow>
     (case load_str name 0 h1 of
        Inl e \<Rightarrow> Inl e
      | Inr n \<Rightarrow>
     (case (case value of
              None \<Rightarrow> Inr None
            | Some off \<Rightarrow> (case load_str name off h1 of Inl e \<Rightarrow> Inl e | Inr v \<Rightarrow> Inr (Some v))) of
        Inl e \<Rightarrow> Inl e
      | Inr v \<Rightarrow>
          (let tr1 = out f @ [GetParams t]
           in Inr (f\<lparr>mem := h1,
                     out := tr1 @ [SetParam n v (set_result E tr1 n v), ReleaseParams]\<rparr>))))))))"

fun set_parameters :: "env \<Rightarrow> nat \<Rightarrow> nat \<Rightarrow> frame \<Rightarrow> error + frame" where
  "set_parameters E i 0 f = Inr f"
| "set_parameters E i (Suc k) f =
     (case set_parameter E i f of
        Inl e \<Rightarrow> Inl e
      | Inr f' \<Rightarrow> set_parameters E (Suc i) k f')"

text \<open>
  "Read the training data": the loop over \<open>argv[arg_used .. argc-1]\<close>, here the list of
  these arguments with \<open>k = i - arg_used\<close>. \<open>Inl\<close> is the jump to \<open>force_exit\<close>. What
  \<open>read_data\<close> returns is dropped.
\<close>

definition open_data :: "env \<Rightarrow> string \<Rightarrow> event list \<Rightarrow> stream option \<times> event list" where
  "open_data E a tr =
     (if cstr a = ''-'' then (Some Stdin, tr)
      else if fopen_ok E tr (cstr a) then (Some (File (cstr a)), tr @ [Fopen (cstr a) True])
      else (None, tr @ [Fopen (cstr a) False]))"

fun read_data_sets :: "env \<Rightarrow> string list \<Rightarrow> nat \<Rightarrow> frame \<Rightarrow> frame + frame" where
  "read_data_sets E [] k f = Inr f"
| "read_data_sets E (a # as) k f =
     (case open_data E a (out f) of
        (None, tr1) \<Rightarrow>
          Inl (f\<lparr>ret := 1,
                 out := tr1 @ [Fprintf Stderr ''ERROR: Failed to open the data set: %s\<newline>'' [S (cstr a)]]\<rparr>)
      | (Some fp, tr1) \<Rightarrow>
          (let tr2 = tr1 @ [Fprintf Stdout ''%d - %s\<newline>'' [I (int k + 1), S (cstr a)]];
               tr3 = tr2 @ [ReadData fp (int k) (read_result E tr2 fp (int k)), Fclose fp]
           in read_data_sets E as (Suc k) (f\<lparr>out := tr3\<rparr>)))"

text \<open>
  "Report the statistics of the training data", "Set callback procedures", "Start
  training", "Log the end time", and \<open>force_exit\<close>.
\<close>

definition start_training :: "env \<Rightarrow> frame \<Rightarrow> error + frame" where
  "start_training E f =
     (case (trainer f, labels f, attrs f) of
        (Some t, Some l, Some a) \<Rightarrow>
          (let tr1 = out f @
                 [Fprintf Stdout ''Number of instances: %d\<newline>'' [I (data_num_instances E (out f))],
                  Fprintf Stdout ''Total number of items: %d\<newline>'' [I (data_totalitems E (out f))],
                  Fprintf Stdout ''Number of attributes: %d\<newline>'' [I (dict_num E (out f) a)],
                  Fprintf Stdout ''Number of labels: %d\<newline>'' [I (dict_num E (out f) l)],
                  Fprintf Stdout ''Seconds required: %.3f\<newline>'' [Elapsed],
                  Fprintf Stdout ''\<newline>'' [],
                  Fflush Stdout,
                  SetMessageCallback t]
           in (case load_str (model (opt f)) 0 (mem f) of
                 Inl e \<Rightarrow> Inl e
               | Inr path \<Rightarrow>
                   (let r = train_result E tr1 path (holdout (opt f));
                        tr2 = tr1 @ [Train path (holdout (opt f)) r]
                    in if r \<noteq> 0 then force_exit (f\<lparr>ret := r, out := tr2\<rparr>)
                       else force_exit
                              (f\<lparr>ret := r,
                                 out := tr2 @
                                   [Fprintf Stdout ''End time of the training: %s\<newline>'' [S (timestamp E tr2)],
                                    Fprintf Stdout ''\<newline>'' []]\<rparr>))))
      | _ \<Rightarrow> Inl InvalidRead)"

text \<open>
  \<open>main_learn(argc, argv, argv0)\<close>: \<open>argv[0]\<close> is the command, the rest is what
  \<open>option_parse(++argv, --argc, ...)\<close> sees. The heap holds what the run allocates.
  \<open>parsed\<close> is the call of \<open>option_parse\<close> on the options that \<open>learn_option_init\<close>
  made; \<open>run_learn\<close> is all that follows the call, for the index \<open>arg_used\<close> and the
  options it left.
\<close>

definition parsed :: "env \<Rightarrow> string list \<Rightarrow> error + (int \<times> pstate)" where
  "parsed E args =
     option_parse (option_scan E) args (parse_learn_options (atoi E)) (learn_option_init [])"

definition run_learn ::
  "env \<Rightarrow> string \<Rightarrow> string \<Rightarrow> string list \<Rightarrow> int \<Rightarrow> pstate \<Rightarrow> error + frame" where
  "run_learn E argv0 command args arg_used s =
     (case s of (o1, h1) \<Rightarrow>
        (let f1 = \<lparr>opt = o1, trainer = None, labels = None, attrs = None, ret = 0,
                  mem = h1, out = [DataInit]\<rparr>
         in if arg_used < 0 then force_exit (f1\<lparr>ret := 1\<rparr>)
            else if help_flag o1 \<noteq> 0 then force_exit (emit (show_usage Stdout argv0 command) f1)
            else
              (case create_instances E f1 of
                 Inl f2 \<Rightarrow> force_exit f2
               | Inr f2 \<Rightarrow>
                   (case set_parameters E 0 (num_params (opt f2)) f2 of
                      Inl e \<Rightarrow> Inl e
                    | Inr f3 \<Rightarrow>
                        (case read_data_sets E (drop (nat arg_used) args) 0
                                (emit [Fprintf Stdout ''Start time of the training: %s\<newline>''
                                         [S (timestamp E (out f3))],
                                       Fprintf Stdout ''\<newline>'' [],
                                       Fprintf Stdout ''Reading the data set(s)\<newline>'' []] f3) of
                           Inl f4 \<Rightarrow> force_exit f4
                         | Inr f4 \<Rightarrow> start_training E f4)))))"

definition main_learn :: "env \<Rightarrow> string list \<Rightarrow> string \<Rightarrow> error + frame" where
  "main_learn E argv argv0 =
     (case argv of
        [] \<Rightarrow> Inl InvalidRead
      | command # args \<Rightarrow>
          (case parsed E args of
             Inl e \<Rightarrow> Inl e
           | Inr (arg_used, s) \<Rightarrow> run_learn E argv0 command args arg_used s))"

subsection \<open>Reading the events of a run\<close>

text \<open>
  The objects created and released, the kinds asked of \<open>crf_create_instance\<close>, the
  calls of \<open>set\<close> and of \<open>read_data\<close>, the files that did not open, the lines on the
  error stream, and whether \<open>train\<close> was called.
\<close>

fun created_of :: "event \<Rightarrow> nat list" where
  "created_of (Create iid (Some x)) = [x]"
| "created_of e = []"

definition created :: "event list \<Rightarrow> nat list" where
  "created tr = concat (map created_of tr)"

fun released_of :: "event \<Rightarrow> nat list" where
  "released_of (Release x) = [x]"
| "released_of e = []"

definition released :: "event list \<Rightarrow> nat list" where
  "released tr = concat (map released_of tr)"

fun kind_of :: "event \<Rightarrow> string list" where
  "kind_of (Create iid p) = [iid]"
| "kind_of e = []"

definition create_kinds :: "event list \<Rightarrow> string list" where
  "create_kinds tr = concat (map kind_of tr)"

fun set_call_of :: "event \<Rightarrow> (string \<times> string option) list" where
  "set_call_of (SetParam n v r) = [(n, v)]"
| "set_call_of e = []"

definition set_calls :: "event list \<Rightarrow> (string \<times> string option) list" where
  "set_calls tr = concat (map set_call_of tr)"

fun read_call_of :: "event \<Rightarrow> (stream \<times> int) list" where
  "read_call_of (ReadData fp g r) = [(fp, g)]"
| "read_call_of e = []"

definition read_calls :: "event list \<Rightarrow> (stream \<times> int) list" where
  "read_calls tr = concat (map read_call_of tr)"

fun open_failure_of :: "event \<Rightarrow> string list" where
  "open_failure_of (Fopen n ok) = (if ok then [] else [n])"
| "open_failure_of e = []"

definition open_failures :: "event list \<Rightarrow> string list" where
  "open_failures tr = concat (map open_failure_of tr)"

fun stderr_of :: "event \<Rightarrow> (string \<times> farg list) list" where
  "stderr_of (Fprintf fp fmt as) = (if fp = Stderr then [(fmt, as)] else [])"
| "stderr_of e = []"

definition stderr_lines :: "event list \<Rightarrow> (string \<times> farg list) list" where
  "stderr_lines tr = concat (map stderr_of tr)"

fun train_of :: "event \<Rightarrow> (string \<times> int \<times> int) list" where
  "train_of (Train path hold r) = [(path, hold, r)]"
| "train_of e = []"

definition train_calls :: "event list \<Rightarrow> (string \<times> int \<times> int) list" where
  "train_calls tr = concat (map train_of tr)"

subsection \<open>The words of the spec\<close>

text \<open>
  A raw parameter \<open>NAME\<close> or \<open>NAME=VALUE\<close>, split as the spec words it: at the first
  \<open>=\<close> only, the value absent when there is no \<open>=\<close>.
\<close>

definition split_param :: "string \<Rightarrow> string \<times> string option" where
  "split_param s =
     (takeWhile (\<lambda>c. c \<noteq> CHR ''='') s,
      if CHR ''='' \<in> set s then Some (tl (dropWhile (\<lambda>c. c \<noteq> CHR ''='') s)) else None)"

text \<open>The raw parameters of an argument list: the arguments of its \<open>-p\<close>/\<open>--param\<close> flags.\<close>

definition is_param_flag :: "optkey \<Rightarrow> bool" where
  "is_param_flag k = (k = Short CHR ''p'' \<or> k = Long ''param'')"

definition raw_params :: "(optkey \<times> string) list \<Rightarrow> string list" where
  "raw_params cs = map (\<lambda>c. cstr (snd c)) (filter (\<lambda>c. is_param_flag (fst c)) cs)"

text \<open>The positional arguments, and the stream the run reads for one of them.\<close>

definition positional :: "env \<Rightarrow> string list \<Rightarrow> string list" where
  "positional E args = drop (nat (snd (option_scan E args))) args"

definition stream_of :: "string \<Rightarrow> stream" where
  "stream_of a = (if cstr a = ''-'' then Stdin else File (cstr a))"

subsection \<open>Well-formed options\<close>

text \<open>
  What holds of the options and the heap between \<open>learn_option_init\<close> and
  \<open>learn_option_finish\<close>: \<open>model\<close> and \<open>algorithm\<close> point to live strings, \<open>type\<close> to a
  live string or to a freed block, \<open>params\<close> to an array of \<open>num_params\<close> pointers to
  live strings (the addresses \<open>ps\<close>), and no block is pointed to twice.
\<close>

definition is_cstring :: "heap \<Rightarrow> addr \<Rightarrow> bool" where
  "is_cstring h a =
     (a < length h \<and> (case h ! a of Live (Chars cs) \<Rightarrow> NUL \<in> set cs | _ \<Rightarrow> False))"

definition holds_string :: "heap \<Rightarrow> addr \<Rightarrow> string \<Rightarrow> bool" where
  "holds_string h a s = (a < length h \<and> h ! a = Live (Chars (s @ [NUL])) \<and> NUL \<notin> set s)"

definition params_ok :: "learn_option_t \<Rightarrow> heap \<Rightarrow> addr list \<Rightarrow> bool" where
  "params_ok po h ps =
     (length ps = num_params po \<and>
      (case params po of
         None \<Rightarrow> ps = []
       | Some p \<Rightarrow> p < length h \<and> h ! p = Live (Ptrs (map Some ps))))"

definition opt_ok :: "learn_option_t \<Rightarrow> heap \<Rightarrow> addr list \<Rightarrow> bool" where
  "opt_ok po h ps =
     (case (model po, algorithm po, type po) of
        (Some m, Some a, Some t) \<Rightarrow>
          is_cstring h m \<and> is_cstring h a \<and> t < length h \<and>
          (is_cstring h t \<or> h ! t = Freed) \<and>
          list_all (is_cstring h) ps \<and> distinct (m # a # t # ps) \<and> params_ok po h ps
      | _ \<Rightarrow> False)"

text \<open>The heap once \<open>realloc\<close> has released the old array of the options.\<close>

definition drop_array :: "learn_option_t \<Rightarrow> heap \<Rightarrow> heap" where
  "drop_array po h = (case params po of None \<Rightarrow> h | Some p \<Rightarrow> h[p := Freed])"

text \<open>The objects a frame holds, in the order \<open>force_exit\<close> releases them.\<close>

definition of_ptr :: "nat option \<Rightarrow> nat list" where
  "of_ptr p = (case p of None \<Rightarrow> [] | Some x \<Rightarrow> [x])"

definition handles :: "frame \<Rightarrow> nat list" where
  "handles f = of_ptr (trainer f) @ of_ptr (labels f) @ of_ptr (attrs f)"

text \<open>
  The events of the parameter loop for the raw parameters \<open>ss\<close>, each split as the spec
  words it, after the events \<open>tr\<close>.
\<close>

fun param_events :: "env \<Rightarrow> nat \<Rightarrow> string list \<Rightarrow> event list \<Rightarrow> event list" where
  "param_events E t [] tr = tr"
| "param_events E t (s # ss) tr =
     param_events E t ss
       (tr @ [GetParams t,
              SetParam (fst (split_param s)) (snd (split_param s))
                (set_result E (tr @ [GetParams t]) (fst (split_param s)) (snd (split_param s))),
              ReleaseParams])"

text \<open>A frame with another pointer in the field \<open>algorithm\<close> of its options.\<close>

definition with_algorithm :: "addr option \<Rightarrow> frame \<Rightarrow> frame" where
  "with_algorithm x f = f\<lparr>opt := (opt f)\<lparr>algorithm := x\<rparr>\<rparr>"

subsection \<open>A concrete setting to run the model in\<close>

text \<open>
  Modelled from the spec: a scanner for the flag forms the spec writes (\<open>-x ARG\<close>, \<open>-h\<close>,
  \<open>--name=ARG\<close>, \<open>--help\<close>); the first argument that is \<open>-\<close> or is not of one of these
  forms ends the flags. It instantiates the parameter \<open>option_scan\<close> where a concrete run
  is evaluated, on argument lists written in these forms only; the general theorems hold
  for every scanner. What option.c makes of other forms (\<open>-xARG\<close>, \<open>-hm\<close>, \<open>--name ARG\<close>, a
  flag whose argument is missing) is not modelled: this scanner does not answer a parse
  error on them, it takes \<open>-xARG\<close> and \<open>-hm\<close> for the first positional argument and gives
  the empty argument to \<open>--name\<close> and to a last \<open>-x\<close>.
\<close>

fun scan_flags :: "string list \<Rightarrow> (optkey \<times> string) list \<times> nat" where
  "scan_flags [] = ([], 0)"
| "scan_flags (a # as) =
     (if take 2 a = ''--'' then
        (case scan_flags as of (cs, n) \<Rightarrow>
           ((Long (takeWhile (\<lambda>c. c \<noteq> CHR ''='') (drop 2 a)),
             drop 1 (dropWhile (\<lambda>c. c \<noteq> CHR ''='') (drop 2 a))) # cs, Suc n))
      else if length a = 2 \<and> hd a = CHR ''-'' then
        (if a = ''-h'' then
           (case scan_flags as of (cs, n) \<Rightarrow> ((Short CHR ''h'', []) # cs, Suc n))
         else
           (case scan_flags (tl as) of (cs, n) \<Rightarrow>
              ((Short (a ! 1), (case as of [] \<Rightarrow> [] | b # _ \<Rightarrow> b)) # cs, n + 2)))
      else ([], 0))"

definition scan_cli :: scanner where
  "scan_cli argv = (case scan_flags argv of (cs, n) \<Rightarrow> (cs, int n))"

text \<open>
  \<open>atoi\<close> of the C library, for a concrete run: white space is skipped, then an optional
  sign, then the decimal digits up to the first other character. The value is not
  bounded: past \<open>INT_MAX\<close> the result of \<open>atoi\<close> is undefined in C.
\<close>

definition isspace :: "char \<Rightarrow> bool" where
  "isspace c = ((of_char c :: nat) = 32 \<or> (9 \<le> (of_char c :: nat) \<and> (of_char c :: nat) \<le> 13))"

definition digits_value :: "string \<Rightarrow> int" where
  "digits_value s =
     foldl (\<lambda>n c. 10 * n + (int (of_char c) - 48)) 0
       (takeWhile (\<lambda>c. 48 \<le> (of_char c :: nat) \<and> (of_char c :: nat) \<le> 57) s)"

definition atoi_dec :: "string \<Rightarrow> int" where
  "atoi_dec s =
     (case dropWhile isspace s of
        [] \<Rightarrow> 0
      | c # r \<Rightarrow>
          if c = CHR ''-'' then - digits_value r
          else if c = CHR ''+'' then digits_value r
          else digits_value (c # r))"

text \<open>
  A setting in which each collaborator answers by its arguments alone: \<open>cr\<close> for
  creation by kind, \<open>st\<close> for \<open>set\<close> by parameter name, \<open>fo\<close> for \<open>fopen\<close> by file name,
  \<open>rd\<close> for \<open>read_data\<close> by stream, \<open>tn\<close> for \<open>train\<close>.
\<close>

definition setting ::
  "(string \<Rightarrow> int) \<Rightarrow> (string \<Rightarrow> int) \<Rightarrow> (string \<Rightarrow> bool) \<Rightarrow> (stream \<Rightarrow> int) \<Rightarrow> int \<Rightarrow> env" where
  "setting cr st fo rd tn =
     \<lparr>option_scan = scan_cli, atoi = atoi_dec,
      create_result = (\<lambda>tr iid. cr iid),
      set_result = (\<lambda>tr n v. st n),
      fopen_ok = (\<lambda>tr n. fo n),
      read_result = (\<lambda>tr fp g. rd fp),
      train_result = (\<lambda>tr path hold. tn),
      data_num_instances = (\<lambda>tr. 0),
      data_totalitems = (\<lambda>tr. 0),
      dict_num = (\<lambda>tr d. 0),
      timestamp = (\<lambda>tr. ''2010-01-01T00:00:00Z'')\<rparr>"

text \<open>The setting in which every collaborator succeeds.\<close>

definition fair :: env where
  "fair = setting (\<lambda>iid. 1) (\<lambda>n. 0) (\<lambda>n. True) (\<lambda>fp. 0) 0"

section \<open>Properties\<close>

subsection \<open>Strings and blocks\<close>

lemma cstr_no_NUL: "NUL \<notin> set (cstr s)"
  unfolding cstr_def by (induction s) auto

lemma cstr_id: "NUL \<notin> set s \<Longrightarrow> cstr s = s"
  unfolding cstr_def by (induction s) auto

lemma cstr_append_NUL: "NUL \<notin> set s \<Longrightarrow> cstr (s @ NUL # r) = s"
  unfolding cstr_def by (induction s) auto

lemma mystrdup_eq: "mystrdup s h = (Some (length h), h @ [Live (Chars (cstr s @ [NUL]))])"
  by (simp add: mystrdup_def malloc_def)

lemma is_cstring_append: "is_cstring h a \<Longrightarrow> is_cstring (h @ xs) a"
  by (auto simp: is_cstring_def nth_append)

lemma is_cstring_update: "a \<noteq> b \<Longrightarrow> is_cstring (h[b := c]) a = is_cstring h a"
  by (auto simp: is_cstring_def)

lemma is_cstring_lt: "is_cstring h a \<Longrightarrow> a < length h"
  by (simp add: is_cstring_def)

lemma is_cstring_new: "is_cstring (h @ [Live (Chars (cstr s @ [NUL]))]) (length h)"
  by (simp add: is_cstring_def)

lemma holds_string_append: "holds_string h a s \<Longrightarrow> holds_string (h @ xs) a s"
  by (auto simp: holds_string_def nth_append)

lemma holds_string_update: "a \<noteq> b \<Longrightarrow> holds_string (h[b := c]) a s = holds_string h a s"
  by (auto simp: holds_string_def)

lemma holds_string_new: "holds_string (h @ [Live (Chars (cstr s @ [NUL]))]) (length h) (cstr s)"
  by (simp add: holds_string_def cstr_no_NUL)

lemma holds_string_is_cstring: "holds_string h a s \<Longrightarrow> is_cstring h a"
  by (auto simp: holds_string_def is_cstring_def)

lemma free_cstring: "is_cstring h a \<Longrightarrow> free (Some a) h = Inr (h[a := Freed])"
  by (auto simp: is_cstring_def split: cell.splits)

lemma list_all_cstring_append: "list_all (is_cstring h) ps \<Longrightarrow> list_all (is_cstring (h @ xs)) ps"
  by (induction ps) (auto intro: is_cstring_append)

lemma list_all_cstring_update:
  "b \<notin> set ps \<Longrightarrow> list_all (is_cstring (h[b := c])) ps = list_all (is_cstring h) ps"
  by (induction ps) (auto simp: is_cstring_update)

lemma list_all2_holds_append:
  "list_all2 (holds_string h) ps ss \<Longrightarrow> list_all2 (holds_string (h @ xs)) ps ss"
  by (erule list_all2_mono) (rule holds_string_append)

lemma list_all2_holds_update:
  "b \<notin> set ps \<Longrightarrow> list_all2 (holds_string h) ps ss \<Longrightarrow> list_all2 (holds_string (h[b := c])) ps ss"
  by (induction ps arbitrary: ss) (auto simp: list_all2_Cons1 holds_string_update)

lemma list_all_lt: "list_all (is_cstring h) ps \<Longrightarrow> \<forall>q\<in>set ps. q < length h"
  by (auto simp: list_all_iff is_cstring_def)

lemma init_ok: "learn_option_init [] = (po, h) \<Longrightarrow> opt_ok po h [] \<and> list_all2 (holds_string h) [] []"
  by (auto simp: learn_option_init_def mystrdup_eq opt_ok_def params_ok_def is_cstring_def nth_append)

lemma opt_okD:
  assumes "opt_ok po h ps"
  obtains m a t where "model po = Some m" "algorithm po = Some a" "type po = Some t"
    "is_cstring h m" "is_cstring h a" "t < length h" "is_cstring h t \<or> h ! t = Freed"
    "list_all (is_cstring h) ps" "distinct (m # a # t # ps)" "params_ok po h ps"
  using assms by (auto simp: opt_ok_def split: option.splits)

lemma opt_okI:
  assumes "model po = Some m" "algorithm po = Some a" "type po = Some t"
    "is_cstring h m" "is_cstring h a" "t < length h" "is_cstring h t \<or> h ! t = Freed"
    "list_all (is_cstring h) ps" "distinct (m # a # t # ps)" "params_ok po h ps"
  shows "opt_ok po h ps"
  using assms by (auto simp: opt_ok_def)

lemma params_ok_append: "params_ok po h ps \<Longrightarrow> params_ok po (h @ xs) ps"
  by (auto simp: params_ok_def nth_append split: option.splits)

lemma params_ok_update_cstring:
  "params_ok po h ps \<Longrightarrow> is_cstring h b \<Longrightarrow> params_ok po (h[b := c]) ps"
  by (auto simp: params_ok_def is_cstring_def nth_list_update split: option.splits)

lemma params_ok_fields:
  "params po' = params po \<Longrightarrow> num_params po' = num_params po \<Longrightarrow>
   params_ok po' h ps = params_ok po h ps"
  by (simp add: params_ok_def)

text \<open>Replacing a live string by a fresh copy keeps the other blocks.\<close>

lemma replace_string_ok:
  assumes ok: "opt_ok po h ps" and hs: "list_all2 (holds_string h) ps ss"
    and b: "is_cstring h b" "b \<notin> set ps"
  shows "list_all2 (holds_string (h[b := Freed] @ [Live (Chars (cstr arg @ [NUL]))])) ps ss"
    and "list_all (is_cstring (h[b := Freed] @ [Live (Chars (cstr arg @ [NUL]))])) ps"
    and "params_ok po (h[b := Freed] @ [Live (Chars (cstr arg @ [NUL]))]) ps"
proof -
  from ok obtain m a t where f: "list_all (is_cstring h) ps" "params_ok po h ps"
    by (auto elim: opt_okD)
  show "list_all2 (holds_string (h[b := Freed] @ [Live (Chars (cstr arg @ [NUL]))])) ps ss"
    using hs b by (intro list_all2_holds_append list_all2_holds_update)
  show "list_all (is_cstring (h[b := Freed] @ [Live (Chars (cstr arg @ [NUL]))])) ps"
    using f b by (intro list_all_cstring_append) (simp add: list_all_cstring_update)
  show "params_ok po (h[b := Freed] @ [Live (Chars (cstr arg @ [NUL]))]) ps"
    using f b by (intro params_ok_append params_ok_update_cstring)
qed

lemma handler_model:
  assumes ok: "opt_ok po h ps" and hs: "list_all2 (holds_string h) ps ss"
    and k: "k = Short CHR ''m'' \<or> k = Long ''model''"
  shows "\<exists>po' h'. parse_learn_options at k arg (po, h) = Inr (1, po', h') \<and>
           opt_ok po' h' ps \<and> list_all2 (holds_string h') ps ss"
proof -
  from ok obtain m a t where f: "model po = Some m" "algorithm po = Some a" "type po = Some t"
    "is_cstring h m" "is_cstring h a" "t < length h" "is_cstring h t \<or> h ! t = Freed"
    "list_all (is_cstring h) ps" "distinct (m # a # t # ps)" "params_ok po h ps"
    by (rule opt_okD)
  let ?h = "h[m := Freed] @ [Live (Chars (cstr arg @ [NUL]))]"
  let ?po = "po\<lparr>model := Some (length h)\<rparr>"
  have run: "parse_learn_options at k arg (po, h) = Inr (1, ?po, ?h)"
    using k f(1,4)
    by (auto simp: parse_learn_options_def SHORTOPT_def LONGOPT_def free_cstring mystrdup_eq
             simp del: free.simps)
  have lt: "\<forall>q\<in>set ps. q < length h" using f(8) by (rule list_all_lt)
  have mps: "m \<notin> set ps" using f(9) by simp
  note r = replace_string_ok[OF ok hs f(4) mps, of arg]
  have "opt_ok ?po ?h ps"
  proof (rule opt_okI[where m = "length h" and a = a and t = t])
    show "is_cstring ?h (length h)" using is_cstring_new[of "h[m := Freed]" arg] by simp
    show "is_cstring ?h a" using f by (auto intro!: is_cstring_append simp: is_cstring_update)
    show "is_cstring ?h t \<or> ?h ! t = Freed"
      using f by (auto simp: is_cstring_def nth_append nth_list_update)
    show "distinct (length h # a # t # ps)" using f lt by (auto simp: is_cstring_def)
    show "params_ok ?po ?h ps" using r(3) by (simp add: params_ok_def)
  qed (use f r in auto)
  with run r(1) show ?thesis by blast
qed

lemma handler_algorithm:
  assumes ok: "opt_ok po h ps" and hs: "list_all2 (holds_string h) ps ss"
    and k: "k = Short CHR ''a'' \<or> k = Long ''algorithm''"
  shows "\<exists>po' h'. parse_learn_options at k arg (po, h) = Inr (1, po', h') \<and>
           opt_ok po' h' ps \<and> list_all2 (holds_string h') ps ss"
proof -
  from ok obtain m a t where f: "model po = Some m" "algorithm po = Some a" "type po = Some t"
    "is_cstring h m" "is_cstring h a" "t < length h" "is_cstring h t \<or> h ! t = Freed"
    "list_all (is_cstring h) ps" "distinct (m # a # t # ps)" "params_ok po h ps"
    by (rule opt_okD)
  let ?h = "h[a := Freed] @ [Live (Chars (cstr arg @ [NUL]))]"
  let ?po = "po\<lparr>algorithm := Some (length h)\<rparr>"
  have run: "parse_learn_options at k arg (po, h) = Inr (1, ?po, ?h)"
    using k f(2,5)
    by (auto simp: parse_learn_options_def SHORTOPT_def LONGOPT_def free_cstring mystrdup_eq
             simp del: free.simps)
  have lt: "\<forall>q\<in>set ps. q < length h" using f(8) by (rule list_all_lt)
  have aps: "a \<notin> set ps" using f(9) by simp
  note r = replace_string_ok[OF ok hs f(5) aps, of arg]
  have "opt_ok ?po ?h ps"
  proof (rule opt_okI[where m = m and a = "length h" and t = t])
    show "is_cstring ?h (length h)" using is_cstring_new[of "h[a := Freed]" arg] by simp
    show "is_cstring ?h m" using f by (auto intro!: is_cstring_append simp: is_cstring_update)
    show "is_cstring ?h t \<or> ?h ! t = Freed"
      using f by (auto simp: is_cstring_def nth_append nth_list_update)
    show "distinct (m # length h # t # ps)" using f lt by (auto simp: is_cstring_def)
    show "params_ok ?po ?h ps" using r(3) by (simp add: params_ok_def)
  qed (use f r in auto)
  with run r(1) show ?thesis by blast
qed

lemma handler_feature:
  assumes ok: "opt_ok po h ps" and hs: "list_all2 (holds_string h) ps ss"
    and k: "k = Short CHR ''f'' \<or> k = Long ''feature''"
    and run: "parse_learn_options at k arg (po, h) = Inr (u, po', h')"
  shows "u = 1 \<and> opt_ok po' h' ps \<and> list_all2 (holds_string h') ps ss"
proof -
  from ok obtain m a t where f: "model po = Some m" "algorithm po = Some a" "type po = Some t"
    "is_cstring h m" "is_cstring h a" "t < length h" "is_cstring h t \<or> h ! t = Freed"
    "list_all (is_cstring h) ps" "distinct (m # a # t # ps)" "params_ok po h ps"
    by (rule opt_okD)
  let ?h = "h[t := Freed] @ [Live (Chars (cstr arg @ [NUL]))]"
  let ?po = "po\<lparr>model := Some (length h)\<rparr>"
  have live: "is_cstring h t"
    using run k f(3,6,7)
    by (auto simp: parse_learn_options_def SHORTOPT_def LONGOPT_def split: if_splits)
  have run': "parse_learn_options at k arg (po, h) = Inr (1, ?po, ?h)"
    using k f(3) live
    by (auto simp: parse_learn_options_def SHORTOPT_def LONGOPT_def free_cstring mystrdup_eq
             simp del: free.simps)
  have lt: "\<forall>q\<in>set ps. q < length h" using f(8) by (rule list_all_lt)
  have tps: "t \<notin> set ps" using f(9) by simp
  note r = replace_string_ok[OF ok hs live tps, of arg]
  have "opt_ok ?po ?h ps"
  proof (rule opt_okI[where m = "length h" and a = a and t = t])
    show "is_cstring ?h (length h)" using is_cstring_new[of "h[t := Freed]" arg] by simp
    show "is_cstring ?h a" using f by (auto intro!: is_cstring_append simp: is_cstring_update)
    show "is_cstring ?h t \<or> ?h ! t = Freed"
      using f by (auto simp: is_cstring_def nth_append nth_list_update)
    show "distinct (length h # a # t # ps)" using f lt by (auto simp: is_cstring_def)
    show "params_ok ?po ?h ps" using r(3) by (simp add: params_ok_def)
  qed (use f r in auto)
  with run run' r(1) show ?thesis by simp
qed

lemma drop_array_length: "length (drop_array po h) = length h"
  by (simp add: drop_array_def split: option.splits)

lemma drop_array_cstring:
  "params_ok po h ps \<Longrightarrow> is_cstring h x \<Longrightarrow> is_cstring (drop_array po h) x"
  by (auto simp: drop_array_def params_ok_def is_cstring_def nth_list_update split: option.splits)

lemma drop_array_freed:
  "drop_array po h ! x = Freed" if "x < length h" "h ! x = Freed"
proof (cases "params po")
  case None
  then show ?thesis using that by (simp add: drop_array_def)
next
  case (Some a)
  then show ?thesis using that by (cases "a = x") (simp_all add: drop_array_def)
qed

lemma drop_array_holds:
  "params_ok po h ps \<Longrightarrow> holds_string h x s \<Longrightarrow> holds_string (drop_array po h) x s"
  by (auto simp: drop_array_def params_ok_def holds_string_def nth_list_update split: option.splits)

lemma realloc_params:
  "params_ok po h ps \<Longrightarrow>
   realloc (params po) (num_params po + 1) h =
     Inr (Some (length h), drop_array po h @ [Live (Ptrs (map Some ps @ [None]))])"
  by (auto simp: realloc_def params_ok_def drop_array_def split: option.splits)

lemma handler_param:
  assumes ok: "opt_ok po h ps" and hs: "list_all2 (holds_string h) ps ss"
    and k: "k = Short CHR ''p'' \<or> k = Long ''param''"
  shows "\<exists>po' h'. parse_learn_options at k arg (po, h) = Inr (1, po', h') \<and>
           opt_ok po' h' (ps @ [Suc (length h)]) \<and>
           list_all2 (holds_string h') (ps @ [Suc (length h)]) (ss @ [cstr arg])"
proof -
  from ok obtain m a t where f: "model po = Some m" "algorithm po = Some a" "type po = Some t"
    "is_cstring h m" "is_cstring h a" "t < length h" "is_cstring h t \<or> h ! t = Freed"
    "list_all (is_cstring h) ps" "distinct (m # a # t # ps)" "params_ok po h ps"
    by (rule opt_okD)
  let ?q = "Suc (length h)"
  let ?h = "drop_array po h @ [Live (Ptrs (map Some (ps @ [?q]))), Live (Chars (cstr arg @ [NUL]))]"
  let ?po = "po\<lparr>params := Some (length h), num_params := num_params po + 1\<rparr>"
  have n: "length ps = num_params po" using f(10) by (simp add: params_ok_def)
  have br: "parse_learn_options at k arg (po, h) =
      (case realloc (params po) (num_params po + 1) h of
         Inl e \<Rightarrow> Inl e
       | Inr (ps, h1) \<Rightarrow>
           (case mystrdup arg h1 of (p, h2) \<Rightarrow>
              (case store_ptr ps (num_params po) p h2 of
                 Inl e \<Rightarrow> Inl e
               | Inr h3 \<Rightarrow>
                   Inr (1, po\<lparr>params := ps, num_params := num_params po + 1\<rparr>, h3))))"
    using k by (auto simp: parse_learn_options_def SHORTOPT_def LONGOPT_def)
  have st: "store_ptr (Some (length h)) (num_params po) (Some ?q)
              (drop_array po h @ [Live (Ptrs (map Some ps @ [None])), Live (Chars (cstr arg @ [NUL]))])
            = Inr ?h"
    using n by (simp add: store_ptr_def nth_append drop_array_length list_update_append)
  have run: "parse_learn_options at k arg (po, h) = Inr (1, ?po, ?h)"
    unfolding br realloc_params[OF f(10)] by (simp add: mystrdup_eq drop_array_length st)
  have lt: "\<forall>q\<in>set ps. q < length h" using f(8) by (rule list_all_lt)
  have cs: "is_cstring h x \<Longrightarrow> is_cstring ?h x" for x
    using drop_array_cstring[OF f(10)] is_cstring_append by blast
  have hs': "list_all2 (holds_string ?h) ps ss"
    using hs by (rule list_all2_mono) (auto intro: holds_string_append drop_array_holds[OF f(10)])
  have new: "holds_string ?h ?q (cstr arg)"
    by (simp add: holds_string_def nth_append drop_array_length cstr_no_NUL)
  have "opt_ok ?po ?h (ps @ [?q])"
  proof (rule opt_okI[where m = m and a = a and t = t])
    show "is_cstring ?h t \<or> ?h ! t = Freed"
      using f(6,7) cs[of t] drop_array_freed[of t h po] by (auto simp: nth_append drop_array_length)
    show "list_all (is_cstring ?h) (ps @ [?q])"
      using f(8) cs holds_string_is_cstring[OF new] by (auto simp: list_all_iff)
    show "distinct (m # a # t # ps @ [?q])" using f lt by (auto simp: is_cstring_def)
    show "params_ok ?po ?h (ps @ [?q])"
      using n by (simp add: params_ok_def nth_append drop_array_length)
  qed (use f cs in \<open>auto simp: nth_append drop_array_length\<close>)
  moreover have "list_all2 (holds_string ?h) (ps @ [?q]) (ss @ [cstr arg])"
    using hs' new by (simp add: list_all2_appendI)
  ultimately show ?thesis using run by blast
qed

lemma opt_ok_fields:
  assumes "model po' = model po" "algorithm po' = algorithm po" "type po' = type po"
    "params po' = params po" "num_params po' = num_params po" "opt_ok po h ps"
  shows "opt_ok po' h ps"
proof -
  from assms(6) obtain m a t where f: "model po = Some m" "algorithm po = Some a" "type po = Some t"
    "is_cstring h m" "is_cstring h a" "t < length h" "is_cstring h t \<or> h ! t = Freed"
    "list_all (is_cstring h) ps" "distinct (m # a # t # ps)" "params_ok po h ps"
    by (rule opt_okD)
  show ?thesis
    by (rule opt_okI[where m = m and a = a and t = t])
       (use f assms(1-5) in \<open>simp_all add: params_ok_def\<close>)
qed

lemma handler_other_eq:
  assumes k: "k \<notin> {Short CHR ''m'', Long ''model'', Short CHR ''a'', Long ''algorithm'',
                 Short CHR ''f'', Long ''feature'', Short CHR ''p'', Long ''param''}"
  shows "parse_learn_options at k arg (po, h) =
           (if k = Short CHR ''t'' \<or> k = Long ''test'' then Inr (1, po\<lparr>holdout := at arg - 1\<rparr>, h)
            else if k = Short CHR ''h'' \<or> k = Long ''help'' then Inr (0, po\<lparr>help_flag := 1\<rparr>, h)
            else Inr (- 1, po, h))"
  using k by (simp add: parse_learn_options_def SHORTOPT_def LONGOPT_def)

lemma handler_other:
  assumes ok: "opt_ok po h ps" and hs: "list_all2 (holds_string h) ps ss"
    and k: "k \<notin> {Short CHR ''m'', Long ''model'', Short CHR ''a'', Long ''algorithm'',
                 Short CHR ''f'', Long ''feature'', Short CHR ''p'', Long ''param''}"
    and run: "parse_learn_options at k arg (po, h) = Inr (u, po', h')"
  shows "opt_ok po' h' ps \<and> list_all2 (holds_string h') ps ss"
proof -
  from run[unfolded handler_other_eq[OF k]]
  have "h' = h \<and> (po' = po\<lparr>holdout := at arg - 1\<rparr> \<or> po' = po\<lparr>help_flag := 1\<rparr> \<or> po' = po)"
    by (auto split: if_splits)
  then show ?thesis using ok hs by (auto intro: opt_ok_fields[rotated -1])
qed

lemma handler_ok:
  assumes ok: "opt_ok po h ps" and hs: "list_all2 (holds_string h) ps ss"
    and run: "parse_learn_options at k arg (po, h) = Inr (u, po', h')"
  shows "\<exists>ps'. opt_ok po' h' ps' \<and>
           list_all2 (holds_string h') ps' (ss @ (if is_param_flag k then [cstr arg] else []))"
proof -
  consider (m) "k = Short CHR ''m'' \<or> k = Long ''model''"
    | (a) "k = Short CHR ''a'' \<or> k = Long ''algorithm''"
    | (f) "k = Short CHR ''f'' \<or> k = Long ''feature''"
    | (p) "k = Short CHR ''p'' \<or> k = Long ''param''"
    | (o) "k \<notin> {Short CHR ''m'', Long ''model'', Short CHR ''a'', Long ''algorithm'',
                 Short CHR ''f'', Long ''feature'', Short CHR ''p'', Long ''param''}"
    by blast
  then show ?thesis
  proof cases
    case m
    then have np: "\<not> is_param_flag k" by (auto simp: is_param_flag_def)
    from handler_model[OF ok hs m, of at arg] obtain po1 h1 where
      r: "parse_learn_options at k arg (po, h) = Inr (1, po1, h1)"
      and g: "opt_ok po1 h1 ps" "list_all2 (holds_string h1) ps ss" by blast
    from r run have "po' = po1" "h' = h1" by simp_all
    with g np show ?thesis by (intro exI[of _ ps]) simp
  next
    case a
    then have np: "\<not> is_param_flag k" by (auto simp: is_param_flag_def)
    from handler_algorithm[OF ok hs a, of at arg] obtain po1 h1 where
      r: "parse_learn_options at k arg (po, h) = Inr (1, po1, h1)"
      and g: "opt_ok po1 h1 ps" "list_all2 (holds_string h1) ps ss" by blast
    from r run have "po' = po1" "h' = h1" by simp_all
    with g np show ?thesis by (intro exI[of _ ps]) simp
  next
    case f
    then have np: "\<not> is_param_flag k" by (auto simp: is_param_flag_def)
    from handler_feature[OF ok hs f run] np show ?thesis by (intro exI[of _ ps]) simp
  next
    case p
    then have np: "is_param_flag k" by (auto simp: is_param_flag_def)
    from handler_param[OF ok hs p, of at arg] obtain po1 h1 where
      r: "parse_learn_options at k arg (po, h) = Inr (1, po1, h1)"
      and g: "opt_ok po1 h1 (ps @ [Suc (length h)])"
        "list_all2 (holds_string h1) (ps @ [Suc (length h)]) (ss @ [cstr arg])" by blast
    from r run have "po' = po1" "h' = h1" by simp_all
    with g np show ?thesis by (intro exI[of _ "ps @ [Suc (length h)]"]) simp
  next
    case o
    then have np: "\<not> is_param_flag k" by (auto simp: is_param_flag_def)
    from handler_other[OF ok hs o run] np show ?thesis by (intro exI[of _ ps]) simp
  qed
qed

lemma run_handlers_ok:
  assumes "opt_ok po h ps" "list_all2 (holds_string h) ps ss"
    "run_handlers (parse_learn_options at) cs (po, h) = Inr (True, po', h')"
  shows "\<exists>ps'. opt_ok po' h' ps' \<and> list_all2 (holds_string h') ps' (ss @ raw_params cs)"
  using assms
proof (induction cs arbitrary: po h ps ss)
  case Nil
  then show ?case by (auto simp: raw_params_def)
next
  case (Cons c cs)
  from Cons.prems(3) obtain u po1 h1 where
    st: "parse_learn_options at (fst c) (snd c) (po, h) = Inr (u, po1, h1)"
    and rest: "run_handlers (parse_learn_options at) cs (po1, h1) = Inr (True, po', h')"
    by (auto split: sum.splits if_splits)
  from handler_ok[OF Cons.prems(1,2) st] obtain ps1 where
    ok1: "opt_ok po1 h1 ps1"
    and hs1: "list_all2 (holds_string h1) ps1 (ss @ (if is_param_flag (fst c) then [cstr (snd c)] else []))"
    by blast
  have "(ss @ (if is_param_flag (fst c) then [cstr (snd c)] else [])) @ raw_params cs
          = ss @ raw_params (c # cs)"
    by (simp add: raw_params_def)
  with Cons.IH[OF ok1 hs1 rest] show ?case by simp
qed

lemma run_handlers_ok_weak:
  assumes "opt_ok po h ps"  "list_all2 (holds_string h) ps ss"
    "run_handlers (parse_learn_options at) cs (po, h) = Inr (b, po', h')"
  shows "\<exists>ps' ss'. opt_ok po' h' ps' \<and> list_all2 (holds_string h') ps' ss'"
  using assms
proof (induction cs arbitrary: po h ps ss)
  case Nil
  then show ?case by auto
next
  case (Cons c cs)
  from Cons.prems(3) obtain u po1 h1 where
    st: "parse_learn_options at (fst c) (snd c) (po, h) = Inr (u, po1, h1)"
    and rest: "(u < 0 \<and> po' = po1 \<and> h' = h1) \<or>
               run_handlers (parse_learn_options at) cs (po1, h1) = Inr (b, po', h')"
    by (auto split: sum.splits if_splits)
  from handler_ok[OF Cons.prems(1,2) st] obtain ps1 ss1 where
    ok1: "opt_ok po1 h1 ps1" and hs1: "list_all2 (holds_string h1) ps1 ss1"
    by blast
  from rest show ?case
  proof
    assume "u < 0 \<and> po' = po1 \<and> h' = h1"
    with ok1 hs1 show ?thesis by blast
  next
    assume "run_handlers (parse_learn_options at) cs (po1, h1) = Inr (b, po', h')"
    from Cons.IH[OF ok1 hs1 this] show ?thesis .
  qed
qed

subsection \<open>Leaving: \<open>learn_option_finish\<close> and \<open>force_exit\<close>\<close>

lemma load_ptr_params:
  "p < length h \<Longrightarrow> h ! p = Live (Ptrs (map Some ps)) \<Longrightarrow> i < length ps \<Longrightarrow>
   load_ptr (Some p) i h = Inr (Some (ps ! i))"
  by (simp add: load_ptr_def)

lemma free_params_ok:
  assumes "p < length h" "h ! p = Live (Ptrs (map Some ps))" "distinct ps"
    "\<forall>j. i \<le> j \<and> j < length ps \<longrightarrow> is_cstring h (ps ! j)" "i + k = length ps"
  shows "\<exists>h'. free_params (Some p) i k h = Inr h' \<and> length h' = length h \<and>
           (\<forall>x. x \<notin> set ps \<longrightarrow> h' ! x = h ! x)"
  using assms
proof (induction k arbitrary: i h)
  case 0
  then show ?case by simp
next
  case (Suc k)
  let ?q = "ps ! i"
  have i: "i < length ps" using Suc.prems(5) by simp
  have q: "is_cstring h ?q" using Suc.prems(4) i by simp
  have pq: "p \<noteq> ?q" using q Suc.prems(2) by (auto simp: is_cstring_def)
  let ?h = "h[?q := Freed]"
  have 1: "p < length ?h" using Suc.prems(1) by simp
  have 2: "?h ! p = Live (Ptrs (map Some ps))" using Suc.prems(2) pq by simp
  have 4: "\<forall>j. Suc i \<le> j \<and> j < length ps \<longrightarrow> is_cstring ?h (ps ! j)"
  proof (intro allI impI)
    fix j assume j: "Suc i \<le> j \<and> j < length ps"
    then have "ps ! j \<noteq> ps ! i" using Suc.prems(3) i by (auto simp: nth_eq_iff_index_eq)
    moreover have "is_cstring h (ps ! j)" using Suc.prems(4) j by simp
    ultimately show "is_cstring ?h (ps ! j)" by (simp add: is_cstring_update)
  qed
  have 5: "Suc i + k = length ps" using Suc.prems(5) by simp
  from Suc.IH[OF 1 2 Suc.prems(3) 4 5] obtain h' where
    r: "free_params (Some p) (Suc i) k ?h = Inr h'" "length h' = length ?h"
       "\<forall>x. x \<notin> set ps \<longrightarrow> h' ! x = ?h ! x" by blast
  have step: "free_params (Some p) i (Suc k) h = free_params (Some p) (Suc i) k ?h"
    using load_ptr_params[OF Suc.prems(1,2) i] free_cstring[OF q]
    by (simp del: free.simps)
  have "\<forall>x. x \<notin> set ps \<longrightarrow> h' ! x = h ! x"
  proof (intro allI impI)
    fix x assume x: "x \<notin> set ps"
    then have "x \<noteq> ?q" using i by auto
    with r(3) x show "h' ! x = h ! x" by simp
  qed
  with r step show ?case by simp
qed

lemma learn_option_finish_ok:
  assumes ok: "opt_ok po h ps"
  shows "\<exists>h'. learn_option_finish po h = Inr h' \<and> length h' = length h \<and>
           (\<forall>a. algorithm po = Some a \<longrightarrow> h' ! a = h ! a) \<and>
           (\<forall>t. type po = Some t \<longrightarrow> h' ! t = h ! t)"
proof -
  from ok obtain m a t where f: "model po = Some m" "algorithm po = Some a" "type po = Some t"
    "is_cstring h m" "is_cstring h a" "t < length h" "is_cstring h t \<or> h ! t = Freed"
    "list_all (is_cstring h) ps" "distinct (m # a # t # ps)" "params_ok po h ps"
    by (rule opt_okD)
  let ?h1 = "h[m := Freed]"
  have fm: "free (model po) h = Inr ?h1" using f(1,4) by (simp add: free_cstring del: free.simps)
  have cs: "\<forall>j. 0 \<le> j \<and> j < length ps \<longrightarrow> is_cstring ?h1 (ps ! j)"
  proof (intro allI impI)
    fix j assume j: "0 \<le> j \<and> j < length ps"
    then have "ps ! j \<in> set ps" by simp
    then have "ps ! j \<noteq> m" using f(9) by auto
    moreover have "is_cstring h (ps ! j)" using f(8) j by (simp add: list_all_length)
    ultimately show "is_cstring ?h1 (ps ! j)" by (simp add: is_cstring_update)
  qed
  show ?thesis
  proof (cases "params po")
    case None
    then have "num_params po = 0" using f(10) by (auto simp: params_ok_def)
    with None fm have run: "learn_option_finish po h = Inr ?h1"
      by (simp add: learn_option_finish_def del: free.simps) simp
    have "?h1 ! a = h ! a" "?h1 ! t = h ! t" using f(9) by simp_all
    with run f show ?thesis by simp
  next
    case (Some p)
    then have p: "p < length h" "h ! p = Live (Ptrs (map Some ps))" "length ps = num_params po"
      using f(10) by (simp_all add: params_ok_def)
    have pm: "p \<noteq> m" using p(2) f(4) by (auto simp: is_cstring_def)
    have pa: "p \<noteq> a" using p(2) f(5) by (auto simp: is_cstring_def)
    have pt: "p \<noteq> t" using p(2) f(7) by (auto simp: is_cstring_def)
    have pps: "p \<notin> set ps" using p(2) f(8) by (auto simp: list_all_iff is_cstring_def)
    have 1: "p < length ?h1" using p by simp
    have 2: "?h1 ! p = Live (Ptrs (map Some ps))" using p pm by simp
    have 3: "distinct ps" using f(9) by simp
    have 5: "0 + num_params po = length ps" using p by simp
    from free_params_ok[OF 1 2 3 cs 5] obtain h2 where
      r: "free_params (Some p) 0 (num_params po) ?h1 = Inr h2" "length h2 = length ?h1"
         "\<forall>x. x \<notin> set ps \<longrightarrow> h2 ! x = ?h1 ! x" by blast
    have "h2 ! p = Live (Ptrs (map Some ps))" using r(3) pps 2 by simp
    then have fp: "free (Some p) h2 = Inr (h2[p := Freed])" using r(2) p(1) by simp
    have run: "learn_option_finish po h = Inr (h2[p := Freed])"
      using fm r(1) fp Some by (simp add: learn_option_finish_def del: free.simps)
    have "(h2[p := Freed]) ! a = h ! a" using pa r(3) f(9) by simp
    moreover have "(h2[p := Freed]) ! t = h ! t" using pt r(3) f(9) by simp
    ultimately show ?thesis using run r(2) f by simp
  qed
qed

lemma SAFE_RELEASE_eq: "SAFE_RELEASE p tr = (None, tr @ map Release (of_ptr p))"
  by (cases p) (simp_all add: SAFE_RELEASE_def of_ptr_def)

lemma force_exit_ok:
  assumes ok: "opt_ok (opt f) (mem f) ps"
  shows "\<exists>h'. force_exit f =
             Inr (f\<lparr>trainer := None, labels := None, attrs := None, mem := h',
                    out := out f @ map Release (handles f) @ [DataFinish]\<rparr>) \<and>
           length h' = length (mem f) \<and>
           (\<forall>a. algorithm (opt f) = Some a \<longrightarrow> h' ! a = mem f ! a) \<and>
           (\<forall>t. type (opt f) = Some t \<longrightarrow> h' ! t = mem f ! t)"
proof -
  from learn_option_finish_ok[OF ok] obtain h' where
    r: "learn_option_finish (opt f) (mem f) = Inr h'" "length h' = length (mem f)"
       "\<forall>a. algorithm (opt f) = Some a \<longrightarrow> h' ! a = mem f ! a"
       "\<forall>t. type (opt f) = Some t \<longrightarrow> h' ! t = mem f ! t" by blast
  have "force_exit f =
          Inr (f\<lparr>trainer := None, labels := None, attrs := None, mem := h',
                 out := out f @ map Release (handles f) @ [DataFinish]\<rparr>)"
    by (simp add: force_exit_def SAFE_RELEASE_eq r(1) handles_def)
  with r show ?thesis by blast
qed

lemma SAFE_RELEASE_idem:
  "SAFE_RELEASE (fst (SAFE_RELEASE p tr)) (snd (SAFE_RELEASE p tr)) = SAFE_RELEASE p tr"
  by (cases p) (simp_all add: SAFE_RELEASE_def)

subsection \<open>Setting parameters\<close>

lemma load_str_holds: "holds_string h a s \<Longrightarrow> load_str (Some a) 0 h = Inr s"
  by (simp add: load_str_def holds_string_def cstr_append_NUL)

lemma strchr_plain:
  "NUL \<notin> set s \<Longrightarrow>
   strchr s c = (if c \<in> set s then Some (length (takeWhile (\<lambda>x. x \<noteq> c) s)) else None)"
  by (simp add: strchr_def cstr_id)

lemma split_at_first:
  assumes "c \<in> set s"
  shows "s = takeWhile (\<lambda>x. x \<noteq> c) s @ c # tl (dropWhile (\<lambda>x. x \<noteq> c) s)"
proof -
  from assms have "dropWhile (\<lambda>x. x \<noteq> c) s \<noteq> []" by (simp add: dropWhile_eq_Nil_conv) 
  moreover from this have "hd (dropWhile (\<lambda>x. x \<noteq> c) s) = c"
    using hd_dropWhile[of "\<lambda>x. x \<noteq> c" s] by simp
  ultimately have "dropWhile (\<lambda>x. x \<noteq> c) s = c # tl (dropWhile (\<lambda>x. x \<noteq> c) s)"
    by (cases "dropWhile (\<lambda>x. x \<noteq> c) s") simp_all
  then show ?thesis using takeWhile_dropWhile_id[of "\<lambda>x. x \<noteq> c" s] by simp
qed

lemma set_parameter_plain:
  assumes t: "trainer f = Some t"
    and a: "load_ptr (params (opt f)) i (mem f) = Inr (Some a)"
    and hs: "holds_string (mem f) a s"
    and no: "CHR ''='' \<notin> set s"
  shows "set_parameter E i f = Inr (f\<lparr>mem := mem f, out := param_events E t [s] (out f)\<rparr>)"
proof -
  have nn: "NUL \<notin> set s" using hs by (simp add: holds_string_def)
  have sp: "split_param s = (s, None)" using no by (auto simp: split_param_def)
  show ?thesis
    using no by (simp add: set_parameter_def a t load_str_holds[OF hs] strchr_plain[OF nn] sp)
qed

lemma set_parameter_split:
  assumes t: "trainer f = Some t"
    and a: "load_ptr (params (opt f)) i (mem f) = Inr (Some a)"
    and hs: "holds_string (mem f) a s"
    and eq: "CHR ''='' \<in> set s"
  shows "set_parameter E i f =
           Inr (f\<lparr>mem := (mem f)[a := Live (Chars (fst (split_param s) @ NUL # the (snd (split_param s)) @ [NUL]))],
                  out := param_events E t [s] (out f)\<rparr>)"
proof -
  let ?n = "takeWhile (\<lambda>x. x \<noteq> CHR ''='') s"
  let ?v = "tl (dropWhile (\<lambda>x. x \<noteq> CHR ''='') s)"
  let ?k = "length ?n"
  have nn: "NUL \<notin> set s" using hs by (simp add: holds_string_def)
  have s: "s = ?n @ CHR ''='' # ?v" using eq by (rule split_at_first)
  have nNUL: "NUL \<notin> set ?n" "NUL \<notin> set ?v" using nn s
    by (metis Un_iff set_append, metis Un_iff list.set_intros(2) set_append)
  have sp: "split_param s = (?n, Some ?v)" using eq by (simp add: split_param_def)
  have a_lt: "a < length (mem f)" and blk: "mem f ! a = Live (Chars (s @ [NUL]))"
    using hs by (simp_all add: holds_string_def)
  have upd: "(s @ [NUL])[?k := NUL] = ?n @ NUL # ?v @ [NUL]"
  proof -
    have "(s @ [NUL])[?k := NUL] = ((?n @ CHR ''='' # ?v) @ [NUL])[?k := NUL]" using s by simp
    also have "\<dots> = ?n @ NUL # ?v @ [NUL]" by (simp add: list_update_append)
    finally show ?thesis .
  qed
  have klt: "?k < length (s @ [NUL])"
    using length_takeWhile_le[of "\<lambda>x. x \<noteq> CHR ''=''" s] by simp
  let ?h = "(mem f)[a := Live (Chars (?n @ NUL # ?v @ [NUL]))]"
  have st: "store_char (Some a) ?k NUL (mem f) = Inr ?h"
    using a_lt blk klt upd by (simp add: store_char_def)
  have l0: "load_str (Some a) 0 ?h = Inr ?n"
    using a_lt nNUL by (simp add: load_str_def cstr_append_NUL)
  have l1: "load_str (Some a) (Suc ?k) ?h = Inr ?v"
    using a_lt nNUL cstr_append_NUL[of ?v "[]"] by (simp add: load_str_def)
  show ?thesis
    using eq
    by (simp add: set_parameter_def a t load_str_holds[OF hs] strchr_plain[OF nn] sp st l0 l1)
qed

lemma set_parameter_ok:
  assumes t: "trainer f = Some t"
    and a: "load_ptr (params (opt f)) i (mem f) = Inr (Some a)"
    and hs: "holds_string (mem f) a s"
  shows "\<exists>cs. NUL \<in> set cs \<and>
           set_parameter E i f =
             Inr (f\<lparr>mem := (mem f)[a := Live (Chars cs)], out := param_events E t [s] (out f)\<rparr>)"
proof (cases "CHR ''='' \<in> set s")
  case True
  from set_parameter_split[OF t a hs True, of E] show ?thesis
    by (intro exI[of _ "fst (split_param s) @ NUL # the (snd (split_param s)) @ [NUL]"]) simp
next
  case False
  have "(mem f)[a := Live (Chars (s @ [NUL]))] = mem f"
    using hs by (simp add: holds_string_def list_update_same_conv)
  with set_parameter_plain[OF t a hs False, of E] show ?thesis
    by (intro exI[of _ "s @ [NUL]"]) simp
qed

lemma set_parameters_ok:
  assumes "trainer f = Some t" "params_ok (opt f) (mem f) ps" "distinct ps"
    "list_all (is_cstring (mem f)) ps" "list_all2 (holds_string (mem f)) (drop i ps) ss"
    "i + k = length ps"
  shows "\<exists>h'. set_parameters E i k f = Inr (f\<lparr>mem := h', out := param_events E t ss (out f)\<rparr>) \<and>
           length h' = length (mem f) \<and> (\<forall>x. x \<notin> set ps \<longrightarrow> h' ! x = mem f ! x) \<and>
           list_all (is_cstring h') ps"
  using assms
proof (induction k arbitrary: i f ss)
  case 0
  then have "ss = []" by simp
  with 0 show ?case by (intro exI[of _ "mem f"]) simp
next
  case (Suc k)
  have i: "i < length ps" using Suc.prems(6) by simp
  let ?a = "ps ! i"
  from Suc.prems(5) i obtain s ss' where ss: "ss = s # ss'"
    and hs: "holds_string (mem f) ?a s"
    and rest: "list_all2 (holds_string (mem f)) (drop (Suc i) ps) ss'"
    by (auto simp: Cons_nth_drop_Suc[symmetric] list_all2_Cons1)
  from Suc.prems(2) i obtain p where p: "params (opt f) = Some p" "p < length (mem f)"
    "mem f ! p = Live (Ptrs (map Some ps))" "length ps = num_params (opt f)"
    by (cases "params (opt f)") (auto simp: params_ok_def)
  have ld: "load_ptr (params (opt f)) i (mem f) = Inr (Some ?a)"
    using p i by (simp add: load_ptr_params)
  from set_parameter_ok[OF Suc.prems(1) ld hs, of E] obtain cs where
    cs: "NUL \<in> set cs"
    and step: "set_parameter E i f =
       Inr (f\<lparr>mem := (mem f)[?a := Live (Chars cs)], out := param_events E t [s] (out f)\<rparr>)"
    by blast
  let ?h = "(mem f)[?a := Live (Chars cs)]"
  let ?f = "f\<lparr>mem := ?h, out := param_events E t [s] (out f)\<rparr>"
  have a_lt: "?a < length (mem f)" using hs by (simp add: holds_string_def)
  have pa: "p \<noteq> ?a" using p(3) hs by (auto simp: holds_string_def)
  have 1: "trainer ?f = Some t" using Suc.prems(1) by simp
  have 2: "params_ok (opt ?f) (mem ?f) ps" using p pa by (simp add: params_ok_def)
  have 4: "list_all (is_cstring (mem ?f)) ps"
    unfolding list_all_iff
  proof
    fix x assume x: "x \<in> set ps"
    then have c: "is_cstring (mem f) x" using Suc.prems(4) by (simp add: list_all_iff)
    show "is_cstring (mem ?f) x"
    proof (cases "x = ?a")
      case True
      then show ?thesis using a_lt cs by (simp add: is_cstring_def)
    next
      case False
      then show ?thesis using c by (simp add: is_cstring_update)
    qed
  qed
  have notin: "?a \<notin> set (drop (Suc i) ps)"
    using Suc.prems(3) i
    by (metis Cons_nth_drop_Suc append_take_drop_id distinct.simps(2) distinct_append)
  have 5: "list_all2 (holds_string (mem ?f)) (drop (Suc i) ps) ss'"
    using list_all2_holds_update[OF notin rest] by simp
  have 6: "Suc i + k = length ps" using Suc.prems(6) by simp
  from Suc.IH[OF 1 2 Suc.prems(3) 4 5 6] obtain h' where
    r: "set_parameters E (Suc i) k ?f = Inr (?f\<lparr>mem := h', out := param_events E t ss' (out ?f)\<rparr>)"
       "length h' = length (mem ?f)" "\<forall>x. x \<notin> set ps \<longrightarrow> h' ! x = mem ?f ! x"
       "list_all (is_cstring h') ps" by blast
  have run: "set_parameters E i (Suc k) f = Inr (f\<lparr>mem := h', out := param_events E t ss (out f)\<rparr>)"
    using step r(1) ss by simp
  have "\<forall>x. x \<notin> set ps \<longrightarrow> h' ! x = mem f ! x"
  proof (intro allI impI)
    fix x assume x: "x \<notin> set ps"
    then have "x \<noteq> ?a" using i by auto
    with r(3) x show "h' ! x = mem f ! x" by simp
  qed
  moreover have "length h' = length (mem f)" using r(2) by simp
  ultimately show ?case using run r(4) by blast
qed

lemma opt_ok_same_cells:
  assumes ok: "opt_ok po h ps" and len: "length h' = length h"
    and same: "\<forall>x. x \<notin> set ps \<longrightarrow> h' ! x = h ! x" and cs: "list_all (is_cstring h') ps"
  shows "opt_ok po h' ps"
proof -
  from ok obtain m a t where f: "model po = Some m" "algorithm po = Some a" "type po = Some t"
    "is_cstring h m" "is_cstring h a" "t < length h" "is_cstring h t \<or> h ! t = Freed"
    "list_all (is_cstring h) ps" "distinct (m # a # t # ps)" "params_ok po h ps"
    by (rule opt_okD)
  have keep: "x \<notin> set ps \<Longrightarrow> is_cstring h x \<Longrightarrow> is_cstring h' x" for x
    using same len by (simp add: is_cstring_def)
  have "params_ok po h' ps"
  proof (cases "params po")
    case None
    then show ?thesis using f(10) by (auto simp: params_ok_def)
  next
    case (Some p)
    then have p: "p < length h" "h ! p = Live (Ptrs (map Some ps))" "length ps = num_params po"
      using f(10) by (simp_all add: params_ok_def)
    have "p \<notin> set ps" using p(2) f(8) by (auto simp: list_all_iff is_cstring_def)
    then show ?thesis using Some p same len by (simp add: params_ok_def)
  qed
  moreover have "is_cstring h' t \<or> h' ! t = Freed" using f(7,9) keep[of t] same by auto
  ultimately show ?thesis
    using f keep len cs by (intro opt_okI[where m = m and a = a and t = t]) auto
qed

subsection \<open>What the events of a step contribute\<close>

lemma created_simps [simp]:
  "created [] = []" "created (e # es) = created_of e @ created es"
  "created (xs @ ys) = created xs @ created ys"
  by (simp_all add: created_def)

lemma released_simps [simp]:
  "released [] = []" "released (e # es) = released_of e @ released es"
  "released (xs @ ys) = released xs @ released ys"
  by (simp_all add: released_def)

lemma create_kinds_simps [simp]:
  "create_kinds [] = []" "create_kinds (e # es) = kind_of e @ create_kinds es"
  "create_kinds (xs @ ys) = create_kinds xs @ create_kinds ys"
  by (simp_all add: create_kinds_def)

lemma set_calls_simps [simp]:
  "set_calls [] = []" "set_calls (e # es) = set_call_of e @ set_calls es"
  "set_calls (xs @ ys) = set_calls xs @ set_calls ys"
  by (simp_all add: set_calls_def)

lemma read_calls_simps [simp]:
  "read_calls [] = []" "read_calls (e # es) = read_call_of e @ read_calls es"
  "read_calls (xs @ ys) = read_calls xs @ read_calls ys"
  by (simp_all add: read_calls_def)

lemma open_failures_simps [simp]:
  "open_failures [] = []" "open_failures (e # es) = open_failure_of e @ open_failures es"
  "open_failures (xs @ ys) = open_failures xs @ open_failures ys"
  by (simp_all add: open_failures_def)

lemma stderr_lines_simps [simp]:
  "stderr_lines [] = []" "stderr_lines (e # es) = stderr_of e @ stderr_lines es"
  "stderr_lines (xs @ ys) = stderr_lines xs @ stderr_lines ys"
  by (simp_all add: stderr_lines_def)

lemma train_calls_simps [simp]:
  "train_calls [] = []" "train_calls (e # es) = train_of e @ train_calls es"
  "train_calls (xs @ ys) = train_calls xs @ train_calls ys"
  by (simp_all add: train_calls_def)

text \<open>Events that are neither creations, releases, openings, error lines nor trainings.\<close>

lemma param_events_shape:
  "\<exists>es. param_events E t ss tr = tr @ es \<and> created es = [] \<and> released es = [] \<and>
        create_kinds es = [] \<and> read_calls es = [] \<and> open_failures es = [] \<and>
        stderr_lines es = [] \<and> train_calls es = [] \<and> set_calls es = map split_param ss"
proof (induction ss arbitrary: tr)
  case Nil
  show ?case by simp
next
  case (Cons s ss)
  let ?ev = "[GetParams t,
              SetParam (fst (split_param s)) (snd (split_param s))
                (set_result E (tr @ [GetParams t]) (fst (split_param s)) (snd (split_param s))),
              ReleaseParams]"
  from Cons.IH[of "tr @ ?ev"] obtain es where
    es: "param_events E t ss (tr @ ?ev) = (tr @ ?ev) @ es" "created es = []" "released es = []"
        "create_kinds es = []" "read_calls es = []" "open_failures es = []"
        "stderr_lines es = []" "train_calls es = []" "set_calls es = map split_param ss"
    by blast
  show ?case
    by (rule exI[of _ "?ev @ es"]) (use es in simp)
qed

subsection \<open>Reading, training, and the paths of a run\<close>

lemma open_data_cases:
  obtains (dash) "cstr a = ''-''" "open_data E a tr = (Some Stdin, tr)"
  | (opened) "cstr a \<noteq> ''-''" "open_data E a tr = (Some (File (cstr a)), tr @ [Fopen (cstr a) True])"
  | (refused) "cstr a \<noteq> ''-''" "open_data E a tr = (None, tr @ [Fopen (cstr a) False])"
  by (cases "cstr a = ''-''"; cases "fopen_ok E tr (cstr a)"; simp add: open_data_def)

lemma read_data_sets_Inr:
  "read_data_sets E as k f = Inr f' \<Longrightarrow>
   \<exists>es. f' = f\<lparr>out := out f @ es\<rparr> \<and> created es = [] \<and> released es = [] \<and>
        create_kinds es = [] \<and> set_calls es = [] \<and> open_failures es = [] \<and>
        stderr_lines es = [] \<and> train_calls es = [] \<and>
        read_calls es = map (\<lambda>j. (stream_of (as ! j), int (k + j))) [0..<length as]"
proof (induction as arbitrary: k f)
  case Nil
  then show ?case by (intro exI[of _ "[]"]) simp
next
  case (Cons a as)
  let ?p = "Fprintf Stdout ''%d - %s\<newline>'' [I (int k + 1), S (cstr a)]"
  show ?case
  proof (cases rule: open_data_cases[of a E "out f"])
    case dash
    let ?ev = "[?p, ReadData Stdin (int k) (read_result E (out f @ [?p]) Stdin (int k)), Fclose Stdin]"
    from Cons.prems dash have "read_data_sets E as (Suc k) (f\<lparr>out := out f @ ?ev\<rparr>) = Inr f'"
      by (simp add: Let_def)
    from Cons.IH[OF this] obtain es where
      es: "f' = f\<lparr>out := out f @ ?ev\<rparr>\<lparr>out := out (f\<lparr>out := out f @ ?ev\<rparr>) @ es\<rparr>"
        "created es = []" "released es = []" "create_kinds es = []" "set_calls es = []"
        "open_failures es = []" "stderr_lines es = []" "train_calls es = []"
        "read_calls es = map (\<lambda>j. (stream_of (as ! j), int (Suc k + j))) [0..<length as]"
      by blast
    show ?thesis
      by (rule exI[of _ "?ev @ es"])
         (use es dash(1) in \<open>simp add: stream_of_def map_upt_Suc del: upt_Suc\<close>)
  next
    case opened
    let ?o = "Fopen (cstr a) True"
    let ?fp = "File (cstr a)"
    let ?ev = "[?o, ?p, ReadData ?fp (int k) (read_result E (out f @ [?o, ?p]) ?fp (int k)), Fclose ?fp]"
    from Cons.prems opened have "read_data_sets E as (Suc k) (f\<lparr>out := out f @ ?ev\<rparr>) = Inr f'"
      by (simp add: Let_def)
    from Cons.IH[OF this] obtain es where
      es: "f' = f\<lparr>out := out f @ ?ev\<rparr>\<lparr>out := out (f\<lparr>out := out f @ ?ev\<rparr>) @ es\<rparr>"
        "created es = []" "released es = []" "create_kinds es = []" "set_calls es = []"
        "open_failures es = []" "stderr_lines es = []" "train_calls es = []"
        "read_calls es = map (\<lambda>j. (stream_of (as ! j), int (Suc k + j))) [0..<length as]"
      by blast
    show ?thesis
      by (rule exI[of _ "?ev @ es"])
         (use es opened(1) in \<open>simp add: stream_of_def map_upt_Suc del: upt_Suc\<close>)
  next
    case refused
    with Cons.prems show ?thesis by simp
  qed
qed

lemma read_data_sets_Inl:
  "read_data_sets E as k f = Inl f' \<Longrightarrow>
   \<exists>es n. n < length as \<and> f' = f\<lparr>ret := 1, out := out f @ es\<rparr> \<and> created es = [] \<and>
        released es = [] \<and> create_kinds es = [] \<and> set_calls es = [] \<and> train_calls es = [] \<and>
        open_failures es = [cstr (as ! n)] \<and>
        stderr_lines es = [(''ERROR: Failed to open the data set: %s\<newline>'', [S (cstr (as ! n))])] \<and>
        read_calls es = map (\<lambda>j. (stream_of (as ! j), int (k + j))) [0..<n]"
proof (induction as arbitrary: k f)
  case Nil
  then show ?case by simp
next
  case (Cons a as)
  let ?p = "Fprintf Stdout ''%d - %s\<newline>'' [I (int k + 1), S (cstr a)]"
  show ?case
  proof (cases rule: open_data_cases[of a E "out f"])
    case dash
    let ?ev = "[?p, ReadData Stdin (int k) (read_result E (out f @ [?p]) Stdin (int k)), Fclose Stdin]"
    from Cons.prems dash have "read_data_sets E as (Suc k) (f\<lparr>out := out f @ ?ev\<rparr>) = Inl f'"
      by (simp add: Let_def)
    from Cons.IH[OF this] obtain es n where
      es: "n < length as"
        "f' = f\<lparr>out := out f @ ?ev\<rparr>\<lparr>ret := 1, out := out (f\<lparr>out := out f @ ?ev\<rparr>) @ es\<rparr>"
        "created es = []" "released es = []" "create_kinds es = []" "set_calls es = []"
        "train_calls es = []" "open_failures es = [cstr (as ! n)]"
        "stderr_lines es = [(''ERROR: Failed to open the data set: %s\<newline>'', [S (cstr (as ! n))])]"
        "read_calls es = map (\<lambda>j. (stream_of (as ! j), int (Suc k + j))) [0..<n]"
      by blast
    show ?thesis
      by (rule exI[of _ "?ev @ es"], rule exI[of _ "Suc n"])
         (use es dash(1) in \<open>simp add: stream_of_def map_upt_Suc del: upt_Suc\<close>)
  next
    case opened
    let ?o = "Fopen (cstr a) True"
    let ?fp = "File (cstr a)"
    let ?ev = "[?o, ?p, ReadData ?fp (int k) (read_result E (out f @ [?o, ?p]) ?fp (int k)), Fclose ?fp]"
    from Cons.prems opened have "read_data_sets E as (Suc k) (f\<lparr>out := out f @ ?ev\<rparr>) = Inl f'"
      by (simp add: Let_def)
    from Cons.IH[OF this] obtain es n where
      es: "n < length as"
        "f' = f\<lparr>out := out f @ ?ev\<rparr>\<lparr>ret := 1, out := out (f\<lparr>out := out f @ ?ev\<rparr>) @ es\<rparr>"
        "created es = []" "released es = []" "create_kinds es = []" "set_calls es = []"
        "train_calls es = []" "open_failures es = [cstr (as ! n)]"
        "stderr_lines es = [(''ERROR: Failed to open the data set: %s\<newline>'', [S (cstr (as ! n))])]"
        "read_calls es = map (\<lambda>j. (stream_of (as ! j), int (Suc k + j))) [0..<n]"
      by blast
    show ?thesis
      by (rule exI[of _ "?ev @ es"], rule exI[of _ "Suc n"])
         (use es opened(1) in \<open>simp add: stream_of_def map_upt_Suc del: upt_Suc\<close>)
  next
    case refused
    let ?ev = "[Fopen (cstr a) False,
                Fprintf Stderr ''ERROR: Failed to open the data set: %s\<newline>'' [S (cstr a)]]"
    from Cons.prems refused have "f' = f\<lparr>ret := 1, out := out f @ ?ev\<rparr>" by auto
    then show ?thesis
      by (intro exI[of _ ?ev] exI[of _ 0]) simp
  qed
qed

lemma load_str_cstring: "is_cstring h m \<Longrightarrow> \<exists>s. load_str (Some m) 0 h = Inr s"
  by (auto simp: is_cstring_def load_str_def split: cell.splits block.splits)

lemma opt_ok_model: "opt_ok po h ps \<Longrightarrow> \<exists>m. model po = Some m \<and> is_cstring h m"
  by (erule opt_okD) simp

lemma start_training_ok:
  assumes ok: "opt_ok (opt f) (mem f) ps"
    and obj: "trainer f = Some t" "labels f = Some l" "attrs f = Some a"
  shows "\<exists>h' es path r.
           start_training E f =
             Inr (f\<lparr>ret := r, trainer := None, labels := None, attrs := None, mem := h',
                    out := out f @ es @ [Release t, Release l, Release a, DataFinish]\<rparr>) \<and>
           created es = [] \<and> released es = [] \<and> create_kinds es = [] \<and> set_calls es = [] \<and>
           read_calls es = [] \<and> open_failures es = [] \<and> stderr_lines es = [] \<and>
           train_calls es = [(path, holdout (opt f), r)]"
proof -
  from opt_ok_model[OF ok] obtain m where m: "model (opt f) = Some m" "is_cstring (mem f) m"
    by blast
  from load_str_cstring[OF m(2)] obtain path where
    path: "load_str (model (opt f)) 0 (mem f) = Inr path" using m(1) by auto
  define st where "st =
             [Fprintf Stdout ''Number of instances: %d\<newline>'' [I (data_num_instances E (out f))],
              Fprintf Stdout ''Total number of items: %d\<newline>'' [I (data_totalitems E (out f))],
              Fprintf Stdout ''Number of attributes: %d\<newline>'' [I (dict_num E (out f) a)],
              Fprintf Stdout ''Number of labels: %d\<newline>'' [I (dict_num E (out f) l)],
              Fprintf Stdout ''Seconds required: %.3f\<newline>'' [Elapsed],
              Fprintf Stdout ''\<newline>'' [],
              Fflush Stdout,
              SetMessageCallback t]"
  define r where "r = train_result E (out f @ st) path (holdout (opt f))"
  define en where "en =
             [Fprintf Stdout ''End time of the training: %s\<newline>''
                [S (timestamp E (out f @ st @ [Train path (holdout (opt f)) r]))],
              Fprintf Stdout ''\<newline>'' []]"
  define es where "es = st @ [Train path (holdout (opt f)) r] @ (if r \<noteq> 0 then [] else en)"
  define g where "g = f\<lparr>ret := r, out := out f @ es\<rparr>"
  have st: "start_training E f = force_exit g"
    by (cases "r = 0")
       (simp_all add: start_training_def obj path Let_def st_def[symmetric] r_def[symmetric]
          en_def es_def g_def)
  have okg: "opt_ok (opt g) (mem g) ps" using ok by (simp add: g_def)
  from force_exit_ok[OF okg] obtain h' where
    fe: "force_exit g =
           Inr (g\<lparr>trainer := None, labels := None, attrs := None, mem := h',
                  out := out g @ map Release (handles g) @ [DataFinish]\<rparr>)"
    by blast
  have hd: "handles g = [t, l, a]" by (simp add: g_def handles_def of_ptr_def obj)
  have run: "start_training E f =
             Inr (f\<lparr>ret := r, trainer := None, labels := None, attrs := None, mem := h',
                    out := out f @ es @ [Release t, Release l, Release a, DataFinish]\<rparr>)"
    unfolding st fe hd by (simp add: g_def)
  have pr: "created es = []" "released es = []" "create_kinds es = []" "set_calls es = []"
    "read_calls es = []" "open_failures es = []" "stderr_lines es = []"
    "train_calls es = [(path, holdout (opt f), r)]"
    by (simp_all add: es_def st_def en_def)
  from run pr show ?thesis by blast
qed

lemma create_instances_cases:
  assumes "out f = [DataInit]"
  obtains
    (c_attrs) "create_instances E f =
        Inl (f\<lparr>attrs := None, ret := 1,
               out := [DataInit, Create ''dictionary'' None,
                       Fprintf Stderr ''ERROR: Failed to create a dictionary instance.\<newline>'' []]\<rparr>)"
  | (c_labels) "create_instances E f =
        Inl (f\<lparr>attrs := Some 1, labels := None, ret := 1,
               out := [DataInit, Create ''dictionary'' (Some 1), Create ''dictionary'' None,
                       Fprintf Stderr ''ERROR: Failed to create a dictionary instance.\<newline>'' []]\<rparr>)"
  | (c_trainer) "create_instances E f =
        Inl (f\<lparr>attrs := Some 1, labels := Some 2, trainer := None, ret := 1,
               out := [DataInit, Create ''dictionary'' (Some 1), Create ''dictionary'' (Some 2),
                       Create ''train/crf1d/lbfgs'' None,
                       Fprintf Stderr ''ERROR: Failed to create a trainer instance.\<newline>'' []]\<rparr>)"
  | (c_all) r where "create_instances E f =
        Inr (f\<lparr>attrs := Some 1, labels := Some 2, trainer := Some 3, ret := r,
               out := [DataInit, Create ''dictionary'' (Some 1), Create ''dictionary'' (Some 2),
                       Create ''train/crf1d/lbfgs'' (Some 3)]\<rparr>)"
proof -
  let ?r1 = "create_result E [DataInit] ''dictionary''"
  let ?r2 = "create_result E [DataInit, Create ''dictionary'' (Some 1)] ''dictionary''"
  let ?r3 = "create_result E [DataInit, Create ''dictionary'' (Some 1), Create ''dictionary'' (Some 2)]
               ''train/crf1d/lbfgs''"
  show thesis
  proof (cases "?r1 = 0")
    case True
    then show ?thesis
      by (intro c_attrs) (simp add: create_instances_def crf_create_instance_def assms Let_def numeral_2_eq_2 numeral_3_eq_3)
  next
    case r1: False
    show ?thesis
    proof (cases "?r2 = 0")
      case True
      with r1 show ?thesis
        by (intro c_labels) (simp add: create_instances_def crf_create_instance_def assms Let_def numeral_2_eq_2 numeral_3_eq_3)
    next
      case r2: False
      show ?thesis
      proof (cases "?r3 = 0")
        case True
        with r1 r2 show ?thesis
          by (intro c_trainer) (simp add: create_instances_def crf_create_instance_def assms Let_def numeral_2_eq_2 numeral_3_eq_3)
      next
        case False
        with r1 r2 show ?thesis
          by (intro c_all[of ?r3]) (simp add: create_instances_def crf_create_instance_def assms Let_def numeral_2_eq_2 numeral_3_eq_3)
      qed
    qed
  qed
qed

lemma run_learn_cases:
  assumes ok: "opt_ok po h ps" and hs: "list_all2 (holds_string h) ps ss"
  obtains
    (parse_error) f where "n < 0" "run_learn E prog command args n (po, h) = Inr f"
      "ret f = 1" "handles f = []" "out f = [DataInit, DataFinish]"
  | (usage) f where "0 \<le> n" "help_flag po \<noteq> 0"
      "run_learn E prog command args n (po, h) = Inr f" "ret f = 0" "handles f = []"
      "out f = DataInit # show_usage Stdout prog command @ [DataFinish]"
  | (no_attrs) f where "0 \<le> n" "help_flag po = 0"
      "run_learn E prog command args n (po, h) = Inr f" "ret f = 1" "handles f = []"
      "out f = [DataInit, Create ''dictionary'' None,
                Fprintf Stderr ''ERROR: Failed to create a dictionary instance.\<newline>'' [],
                DataFinish]"
  | (no_labels) f where "0 \<le> n" "help_flag po = 0"
      "run_learn E prog command args n (po, h) = Inr f" "ret f = 1" "handles f = []"
      "out f = [DataInit, Create ''dictionary'' (Some 1), Create ''dictionary'' None,
                Fprintf Stderr ''ERROR: Failed to create a dictionary instance.\<newline>'' [],
                Release 1, DataFinish]"
  | (no_trainer) f where "0 \<le> n" "help_flag po = 0"
      "run_learn E prog command args n (po, h) = Inr f" "ret f = 1" "handles f = []"
      "out f = [DataInit, Create ''dictionary'' (Some 1), Create ''dictionary'' (Some 2),
                Create ''train/crf1d/lbfgs'' None,
                Fprintf Stderr ''ERROR: Failed to create a trainer instance.\<newline>'' [],
                Release 2, Release 1, DataFinish]"
  | (no_file) f body m where "0 \<le> n" "help_flag po = 0"
      "run_learn E prog command args n (po, h) = Inr f" "ret f = 1" "handles f = []"
      "out f = [DataInit, Create ''dictionary'' (Some 1), Create ''dictionary'' (Some 2),
                Create ''train/crf1d/lbfgs'' (Some 3)] @ body @
               [Release 3, Release 2, Release 1, DataFinish]"
      "created body = []" "released body = []" "create_kinds body = []"
      "set_calls body = map split_param ss" "train_calls body = []"
      "m < length (drop (nat n) args)"
      "open_failures body = [cstr (drop (nat n) args ! m)]"
      "stderr_lines body =
         [(''ERROR: Failed to open the data set: %s\<newline>'', [S (cstr (drop (nat n) args ! m))])]"
      "read_calls body = map (\<lambda>j. (stream_of (drop (nat n) args ! j), int j)) [0..<m]"
  | (trained) f body path where "0 \<le> n" "help_flag po = 0"
      "run_learn E prog command args n (po, h) = Inr f" "handles f = []"
      "out f = [DataInit, Create ''dictionary'' (Some 1), Create ''dictionary'' (Some 2),
                Create ''train/crf1d/lbfgs'' (Some 3)] @ body @
               [Release 3, Release 2, Release 1, DataFinish]"
      "created body = []" "released body = []" "create_kinds body = []"
      "set_calls body = map split_param ss" "train_calls body = [(path, holdout po, ret f)]"
      "open_failures body = []" "stderr_lines body = []"
      "read_calls body =
         map (\<lambda>j. (stream_of (drop (nat n) args ! j), int j)) [0..<length (drop (nat n) args)]"
proof -
  define f1 where "f1 = \<lparr>opt = po, trainer = None, labels = None, attrs = None, ret = 0,
                         mem = h, out = [DataInit]\<rparr>"
  define pos where "pos = drop (nat n) args"
  have f1s: "opt f1 = po" "mem f1 = h" "out f1 = [DataInit]" "trainer f1 = None"
    "labels f1 = None" "attrs f1 = None" "ret f1 = 0"
    by (simp_all add: f1_def)
  have rl0: "run_learn E prog command args n (po, h) =
      (if n < 0 then force_exit (f1\<lparr>ret := 1\<rparr>)
       else if help_flag po \<noteq> 0 then force_exit (emit (show_usage Stdout prog command) f1)
       else
         (case create_instances E f1 of
            Inl f2 \<Rightarrow> force_exit f2
          | Inr f2 \<Rightarrow>
              (case set_parameters E 0 (num_params (opt f2)) f2 of
                 Inl e \<Rightarrow> Inl e
               | Inr f3 \<Rightarrow>
                   (case read_data_sets E pos 0
                           (emit [Fprintf Stdout ''Start time of the training: %s\<newline>''
                                    [S (timestamp E (out f3))],
                                  Fprintf Stdout ''\<newline>'' [],
                                  Fprintf Stdout ''Reading the data set(s)\<newline>'' []] f3) of
                      Inl f4 \<Rightarrow> force_exit f4
                    | Inr f4 \<Rightarrow> start_training E f4))))"
    unfolding run_learn_def f1_def pos_def Let_def by simp
  show thesis
  proof (cases "n < 0")
    case True
    have okf: "opt_ok (opt (f1\<lparr>ret := 1\<rparr>)) (mem (f1\<lparr>ret := 1\<rparr>)) ps" using ok f1s by simp
    from force_exit_ok[OF okf] obtain h' where
      fe: "force_exit (f1\<lparr>ret := 1\<rparr>) =
         Inr (f1\<lparr>ret := 1, trainer := None, labels := None, attrs := None, mem := h',
                out := out (f1\<lparr>ret := 1\<rparr>) @ map Release (handles (f1\<lparr>ret := 1\<rparr>)) @ [DataFinish]\<rparr>)"
      by auto
    define F where "F = f1\<lparr>ret := 1, trainer := None, labels := None, attrs := None, mem := h',
                out := out (f1\<lparr>ret := 1\<rparr>) @ map Release (handles (f1\<lparr>ret := 1\<rparr>)) @ [DataFinish]\<rparr>"
    have run: "run_learn E prog command args n (po, h) = Inr F"
      unfolding rl0 F_def using True fe by simp
    show ?thesis
      by (rule parse_error[of F]) (use True run in \<open>simp_all add: F_def f1_def handles_def of_ptr_def\<close>)
  next
    case n0: False
    show ?thesis
    proof (cases "help_flag po = 0")
      case False
      define g where "g = emit (show_usage Stdout prog command) f1"
      have okg: "opt_ok (opt g) (mem g) ps" using ok f1s by (simp add: g_def emit_def)
      from force_exit_ok[OF okg] obtain h' where
        fe: "force_exit g =
           Inr (g\<lparr>trainer := None, labels := None, attrs := None, mem := h',
                  out := out g @ map Release (handles g) @ [DataFinish]\<rparr>)"
        by auto
      define F where "F = g\<lparr>trainer := None, labels := None, attrs := None, mem := h',
                  out := out g @ map Release (handles g) @ [DataFinish]\<rparr>"
      have run: "run_learn E prog command args n (po, h) = Inr F"
        unfolding rl0 F_def g_def[symmetric] using n0 False fe by simp
      show ?thesis
        by (rule usage[of F])
           (use n0 False run in \<open>simp_all add: F_def g_def emit_def f1_def handles_def of_ptr_def\<close>)
    next
      case help0: True
      have rl: "run_learn E prog command args n (po, h) =
          (case create_instances E f1 of
             Inl f2 \<Rightarrow> force_exit f2
           | Inr f2 \<Rightarrow>
               (case set_parameters E 0 (num_params (opt f2)) f2 of
                  Inl e \<Rightarrow> Inl e
                | Inr f3 \<Rightarrow>
                    (case read_data_sets E pos 0
                            (emit [Fprintf Stdout ''Start time of the training: %s\<newline>''
                                     [S (timestamp E (out f3))],
                                   Fprintf Stdout ''\<newline>'' [],
                                   Fprintf Stdout ''Reading the data set(s)\<newline>'' []] f3) of
                       Inl f4 \<Rightarrow> force_exit f4
                     | Inr f4 \<Rightarrow> start_training E f4)))"
        unfolding rl0 using n0 help0 by simp
      from f1s(3) show ?thesis
      proof (cases rule: create_instances_cases[where E = E])
        case c_attrs
        define g where "g = f1\<lparr>attrs := None, ret := 1,
               out := [DataInit, Create ''dictionary'' None,
                       Fprintf Stderr ''ERROR: Failed to create a dictionary instance.\<newline>'' []]\<rparr>"
        have okg: "opt_ok (opt g) (mem g) ps" using ok f1s by (simp add: g_def)
        from force_exit_ok[OF okg] obtain h' where
          fe: "force_exit g =
             Inr (g\<lparr>trainer := None, labels := None, attrs := None, mem := h',
                    out := out g @ map Release (handles g) @ [DataFinish]\<rparr>)"
          by auto
        define F where "F = g\<lparr>trainer := None, labels := None, attrs := None, mem := h',
                    out := out g @ map Release (handles g) @ [DataFinish]\<rparr>"
        have run: "run_learn E prog command args n (po, h) = Inr F"
          unfolding rl c_attrs g_def[symmetric] F_def using fe by simp
        show ?thesis
          by (rule no_attrs[of F])
             (use n0 help0 run in \<open>simp_all add: F_def g_def f1_def handles_def of_ptr_def\<close>)
      next
        case c_labels
        define g where "g = f1\<lparr>attrs := Some 1, labels := None, ret := 1,
               out := [DataInit, Create ''dictionary'' (Some 1), Create ''dictionary'' None,
                       Fprintf Stderr ''ERROR: Failed to create a dictionary instance.\<newline>'' []]\<rparr>"
        have okg: "opt_ok (opt g) (mem g) ps" using ok f1s by (simp add: g_def)
        from force_exit_ok[OF okg] obtain h' where
          fe: "force_exit g =
             Inr (g\<lparr>trainer := None, labels := None, attrs := None, mem := h',
                    out := out g @ map Release (handles g) @ [DataFinish]\<rparr>)"
          by auto
        define F where "F = g\<lparr>trainer := None, labels := None, attrs := None, mem := h',
                    out := out g @ map Release (handles g) @ [DataFinish]\<rparr>"
        have run: "run_learn E prog command args n (po, h) = Inr F"
          unfolding rl c_labels g_def[symmetric] F_def using fe by simp
        show ?thesis
          by (rule no_labels[of F])
             (use n0 help0 run in \<open>simp_all add: F_def g_def f1_def handles_def of_ptr_def\<close>)
      next
        case c_trainer
        define g where "g = f1\<lparr>attrs := Some 1, labels := Some 2, trainer := None, ret := 1,
               out := [DataInit, Create ''dictionary'' (Some 1), Create ''dictionary'' (Some 2),
                       Create ''train/crf1d/lbfgs'' None,
                       Fprintf Stderr ''ERROR: Failed to create a trainer instance.\<newline>'' []]\<rparr>"
        have okg: "opt_ok (opt g) (mem g) ps" using ok f1s by (simp add: g_def)
        from force_exit_ok[OF okg] obtain h' where
          fe: "force_exit g =
             Inr (g\<lparr>trainer := None, labels := None, attrs := None, mem := h',
                    out := out g @ map Release (handles g) @ [DataFinish]\<rparr>)"
          by auto
        define F where "F = g\<lparr>trainer := None, labels := None, attrs := None, mem := h',
                    out := out g @ map Release (handles g) @ [DataFinish]\<rparr>"
        have run: "run_learn E prog command args n (po, h) = Inr F"
          unfolding rl c_trainer g_def[symmetric] F_def using fe by simp
        show ?thesis
          by (rule no_trainer[of F])
             (use n0 help0 run in \<open>simp_all add: F_def g_def f1_def handles_def of_ptr_def\<close>)
      next
        case (c_all r)
        define C where "C = [DataInit, Create ''dictionary'' (Some 1), Create ''dictionary'' (Some 2),
                             Create ''train/crf1d/lbfgs'' (Some 3)]"
        define f2 where "f2 = f1\<lparr>attrs := Some 1, labels := Some 2, trainer := Some 3, ret := r,
                                out := C\<rparr>"
        have f2s: "opt f2 = po" "mem f2 = h" "out f2 = C" "trainer f2 = Some 3"
          "labels f2 = Some 2" "attrs f2 = Some 1"
          by (simp_all add: f2_def f1_def)
        from ok have po: "list_all (is_cstring h) ps" "distinct ps" "params_ok po h ps"
          by (auto elim: opt_okD)
        then have len: "0 + num_params po = length ps" by (simp add: params_ok_def)
        have "\<exists>h'. set_parameters E 0 (num_params po) f2 =
                 Inr (f2\<lparr>mem := h', out := param_events E 3 ss (out f2)\<rparr>) \<and>
               length h' = length (mem f2) \<and> (\<forall>x. x \<notin> set ps \<longrightarrow> h' ! x = mem f2 ! x) \<and>
               list_all (is_cstring h') ps"
          by (rule set_parameters_ok) (use po hs len f2s in simp_all)
        then obtain h2 where
          sp: "set_parameters E 0 (num_params po) f2 =
                 Inr (f2\<lparr>mem := h2, out := param_events E 3 ss C\<rparr>)"
          and h2: "length h2 = length h" "\<forall>x. x \<notin> set ps \<longrightarrow> h2 ! x = h ! x"
            "list_all (is_cstring h2) ps"
          using f2s by auto
        from param_events_shape[of E 3 ss C] obtain pe where
          pe: "param_events E 3 ss C = C @ pe" "created pe = []" "released pe = []"
            "create_kinds pe = []" "read_calls pe = []" "open_failures pe = []"
            "stderr_lines pe = []" "train_calls pe = []" "set_calls pe = map split_param ss"
          by blast
        have ok2: "opt_ok po h2 ps" using ok h2 by (rule opt_ok_same_cells)
        define pr where "pr = [Fprintf Stdout ''Start time of the training: %s\<newline>''
                                 [S (timestamp E (C @ pe))],
                               Fprintf Stdout ''\<newline>'' [],
                               Fprintf Stdout ''Reading the data set(s)\<newline>'' []]"
        define f3 where "f3 = f2\<lparr>mem := h2, out := C @ pe @ pr\<rparr>"
        have f3s: "opt f3 = po" "mem f3 = h2" "out f3 = C @ pe @ pr" "trainer f3 = Some 3"
          "labels f3 = Some 2" "attrs f3 = Some 1"
          by (simp_all add: f3_def f2s)
        have rl2: "run_learn E prog command args n (po, h) =
            (case read_data_sets E pos 0 f3 of
               Inl f4 \<Rightarrow> force_exit f4
             | Inr f4 \<Rightarrow> start_training E f4)"
          unfolding rl c_all C_def[symmetric] f2_def[symmetric]
          by (simp add: f2s sp pe emit_def f3_def pr_def)
        show ?thesis
        proof (cases "read_data_sets E pos 0 f3")
          case (Inl f4)
          from read_data_sets_Inl[OF Inl] obtain es m where
            es: "m < length pos" "f4 = f3\<lparr>ret := 1, out := out f3 @ es\<rparr>" "created es = []"
              "released es = []" "create_kinds es = []" "set_calls es = []" "train_calls es = []"
              "open_failures es = [cstr (pos ! m)]"
              "stderr_lines es =
                 [(''ERROR: Failed to open the data set: %s\<newline>'', [S (cstr (pos ! m))])]"
              "read_calls es = map (\<lambda>j. (stream_of (pos ! j), int (0 + j))) [0..<m]"
            by blast
          have okf: "opt_ok (opt f4) (mem f4) ps" using ok2 es(2) f3s by simp
          from force_exit_ok[OF okf] obtain h' where
            fe: "force_exit f4 =
               Inr (f4\<lparr>trainer := None, labels := None, attrs := None, mem := h',
                      out := out f4 @ map Release (handles f4) @ [DataFinish]\<rparr>)"
            by auto
          define F where "F = f4\<lparr>trainer := None, labels := None, attrs := None, mem := h',
                      out := out f4 @ map Release (handles f4) @ [DataFinish]\<rparr>"
          have run: "run_learn E prog command args n (po, h) = Inr F"
            unfolding rl2 Inl F_def using fe by simp
          have hd: "handles f4 = [3, 2, 1]" using es(2) f3s by (simp add: handles_def of_ptr_def)
          have o: "out F = C @ (pe @ pr @ es) @ [Release 3, Release 2, Release 1, DataFinish]"
            by (simp add: F_def es(2) f3s handles_def of_ptr_def)
          have rt: "ret F = 1" "handles F = []" by (simp_all add: F_def es(2) handles_def of_ptr_def)
          show ?thesis
            by (rule no_file[of F "pe @ pr @ es" m])
               (use n0 help0 run o rt es pe in \<open>simp_all add: C_def pos_def pr_def\<close>)
        next
          case (Inr f4)
          from read_data_sets_Inr[OF Inr] obtain es where
            es: "f4 = f3\<lparr>out := out f3 @ es\<rparr>" "created es = []"
              "released es = []" "create_kinds es = []" "set_calls es = []" "open_failures es = []"
              "stderr_lines es = []" "train_calls es = []"
              "read_calls es = map (\<lambda>j. (stream_of (pos ! j), int (0 + j))) [0..<length pos]"
            by blast
          have okf: "opt_ok (opt f4) (mem f4) ps" using ok2 es(1) f3s by simp
          have obj: "trainer f4 = Some 3" "labels f4 = Some 2" "attrs f4 = Some 1"
            using es(1) f3s by simp_all
          from start_training_ok[OF okf obj, of E] obtain h' te path r' where
            st: "start_training E f4 =
                   Inr (f4\<lparr>ret := r', trainer := None, labels := None, attrs := None, mem := h',
                          out := out f4 @ te @ [Release 3, Release 2, Release 1, DataFinish]\<rparr>)"
            and te: "created te = []" "released te = []" "create_kinds te = []" "set_calls te = []"
              "read_calls te = []" "open_failures te = []" "stderr_lines te = []"
              "train_calls te = [(path, holdout (opt f4), r')]"
            by blast
          define F where "F = f4\<lparr>ret := r', trainer := None, labels := None, attrs := None, mem := h',
                          out := out f4 @ te @ [Release 3, Release 2, Release 1, DataFinish]\<rparr>"
          have run: "run_learn E prog command args n (po, h) = Inr F"
            unfolding rl2 Inr F_def using st by simp
          have o: "out F = C @ (pe @ pr @ es @ te) @ [Release 3, Release 2, Release 1, DataFinish]"
            by (simp add: F_def es(1) f3s)
          have rt: "ret F = r'" "handles F = []" "opt f4 = po"
            by (simp_all add: F_def es(1) f3s handles_def of_ptr_def)
          show ?thesis
            by (rule trained[of F "pe @ pr @ es @ te" path])
               (use n0 help0 run o rt es pe te in \<open>simp_all add: C_def pos_def pr_def\<close>)
        qed
      qed
    qed
  qed
qed

subsection \<open>From the argument list to the run\<close>

lemma parsed_ok:
  assumes "parsed E args = Inr (n, po, h)"
  shows "\<exists>ps ss. opt_ok po h ps \<and> list_all2 (holds_string h) ps ss \<and>
           (0 \<le> n \<longrightarrow> ss = raw_params (fst (option_scan E args)))"
proof -
  obtain o0 h0 where init: "learn_option_init [] = (o0, h0)" by (cases "learn_option_init []")
  from init_ok[OF init] have ok0: "opt_ok o0 h0 []" "list_all2 (holds_string h0) [] []" by simp_all
  from assms init obtain b where
    rh: "run_handlers (parse_learn_options (atoi E)) (fst (option_scan E args)) (o0, h0) = Inr (b, po, h)"
    and n: "n = (if b then snd (option_scan E args) else - 1)"
    by (auto simp: parsed_def option_parse_def split: sum.splits)
  show ?thesis
  proof (cases b)
    case True
    with run_handlers_ok[OF ok0 _] rh show ?thesis by fastforce
  next
    case False
    with n have "n < 0" by simp
    with run_handlers_ok_weak[OF ok0 rh] show ?thesis by auto
  qed
qed

lemma parsed_index:
  assumes "parsed E args = Inr (n, po, h)" "0 \<le> n"
  shows "n = snd (option_scan E args)"
  using assms by (auto simp: parsed_def option_parse_def split: sum.splits if_splits)

lemma main_learn_run:
  "parsed E args = Inr (n, po, h) \<Longrightarrow>
   main_learn E (command # args) argv0 = run_learn E argv0 command args n (po, h)"
  by (simp add: main_learn_def)

lemma main_learn_Inl:
  "parsed E args = Inl e \<Longrightarrow> main_learn E (command # args) argv0 = Inl e"
  by (simp add: main_learn_def)

lemma handles_empty:
  "handles f = [] \<Longrightarrow> trainer f = None \<and> labels f = None \<and> attrs f = None"
  by (auto simp: handles_def of_ptr_def split: option.splits)

subsection \<open>The field algorithm is not read\<close>

lemma with_algorithm_fields:
  "opt (with_algorithm x f) = (opt f)\<lparr>algorithm := x\<rparr>"
  "trainer (with_algorithm x f) = trainer f" "labels (with_algorithm x f) = labels f"
  "attrs (with_algorithm x f) = attrs f" "ret (with_algorithm x f) = ret f"
  "mem (with_algorithm x f) = mem f" "out (with_algorithm x f) = out f"
  by (simp_all add: with_algorithm_def)

lemma with_algorithm_updates:
  "(with_algorithm x f)\<lparr>trainer := t\<rparr> = with_algorithm x (f\<lparr>trainer := t\<rparr>)"
  "(with_algorithm x f)\<lparr>labels := l\<rparr> = with_algorithm x (f\<lparr>labels := l\<rparr>)"
  "(with_algorithm x f)\<lparr>attrs := a\<rparr> = with_algorithm x (f\<lparr>attrs := a\<rparr>)"
  "(with_algorithm x f)\<lparr>ret := r\<rparr> = with_algorithm x (f\<lparr>ret := r\<rparr>)"
  "(with_algorithm x f)\<lparr>mem := h\<rparr> = with_algorithm x (f\<lparr>mem := h\<rparr>)"
  "(with_algorithm x f)\<lparr>out := tr\<rparr> = with_algorithm x (f\<lparr>out := tr\<rparr>)"
  by (simp_all add: with_algorithm_def)

lemma finish_ignores_algorithm:
  "learn_option_finish (po\<lparr>algorithm := x\<rparr>) h = learn_option_finish po h"
  by (simp add: learn_option_finish_def cong: sum.case_cong)

lemma force_exit_ignores_algorithm:
  "force_exit (with_algorithm x f) = map_sum id (with_algorithm x) (force_exit f)"
  by (simp add: force_exit_def finish_ignores_algorithm SAFE_RELEASE_eq with_algorithm_fields
        with_algorithm_updates split: sum.splits)

lemma create_instances_ignores_algorithm:
  "create_instances E (with_algorithm x f) =
     map_sum (with_algorithm x) (with_algorithm x) (create_instances E f)"
  by (simp add: create_instances_def crf_create_instance_def Let_def with_algorithm_fields
        with_algorithm_updates)

lemma set_parameter_ignores_algorithm:
  "set_parameter E i (with_algorithm x f) = map_sum id (with_algorithm x) (set_parameter E i f)"
  by (auto simp: set_parameter_def Let_def with_algorithm_fields with_algorithm_updates
        split: sum.splits option.splits prod.splits)

lemma set_parameters_ignores_algorithm:
  "set_parameters E i k (with_algorithm x f) =
     map_sum id (with_algorithm x) (set_parameters E i k f)"
proof (induction k arbitrary: i f)
  case 0
  show ?case by simp
next
  case (Suc k)
  show ?case
    by (cases "set_parameter E i f") (simp_all add: set_parameter_ignores_algorithm Suc.IH)
qed

lemma read_data_sets_ignores_algorithm:
  "read_data_sets E as k (with_algorithm x f) =
     map_sum (with_algorithm x) (with_algorithm x) (read_data_sets E as k f)"
proof (induction as arbitrary: k f)
  case Nil
  show ?case by simp
next
  case (Cons a as)
  show ?case
    by (cases rule: open_data_cases[of a E "out f"])
       (simp_all add: Let_def with_algorithm_fields with_algorithm_updates Cons.IH)
qed

lemma start_training_ignores_algorithm:
  "start_training E (with_algorithm x f) = map_sum id (with_algorithm x) (start_training E f)"
  by (simp add: start_training_def Let_def with_algorithm_fields with_algorithm_updates
        force_exit_ignores_algorithm split: option.splits sum.splits)

lemma emit_with_algorithm: "emit es (with_algorithm x f) = with_algorithm x (emit es f)"
  by (simp add: emit_def with_algorithm_fields with_algorithm_updates)

lemma run_learn_ignores_algorithm:
  "run_learn E prog command args n (po\<lparr>algorithm := x\<rparr>, h) =
     map_sum id (with_algorithm x) (run_learn E prog command args n (po, h))"
proof -
  define F where "F = \<lparr>opt = po, trainer = None, labels = None, attrs = None, ret = 0,
                        mem = h, out = [DataInit]\<rparr>"
  define pos where "pos = drop (nat n) args"
  define rest where "rest = (\<lambda>f1.
      (case create_instances E f1 of
         Inl f2 \<Rightarrow> force_exit f2
       | Inr f2 \<Rightarrow>
           (case set_parameters E 0 (num_params (opt f2)) f2 of
              Inl e \<Rightarrow> Inl e
            | Inr f3 \<Rightarrow>
                (case read_data_sets E pos 0
                        (emit [Fprintf Stdout ''Start time of the training: %s\<newline>''
                                 [S (timestamp E (out f3))],
                               Fprintf Stdout ''\<newline>'' [],
                               Fprintf Stdout ''Reading the data set(s)\<newline>'' []] f3) of
                   Inl f4 \<Rightarrow> force_exit f4
                 | Inr f4 \<Rightarrow> start_training E f4))))"
  have F': "\<lparr>opt = po\<lparr>algorithm := x\<rparr>, trainer = None, labels = None, attrs = None, ret = 0,
             mem = h, out = [DataInit]\<rparr> = with_algorithm x F"
    by (simp add: F_def with_algorithm_def)
  have r1: "run_learn E prog command args n (po, h) =
      (if n < 0 then force_exit (F\<lparr>ret := 1\<rparr>)
       else if help_flag po \<noteq> 0 then force_exit (emit (show_usage Stdout prog command) F)
       else rest F)"
    unfolding run_learn_def F_def pos_def rest_def Let_def by simp
  have r2: "run_learn E prog command args n (po\<lparr>algorithm := x\<rparr>, h) =
      (if n < 0 then force_exit ((with_algorithm x F)\<lparr>ret := 1\<rparr>)
       else if help_flag po \<noteq> 0
         then force_exit (emit (show_usage Stdout prog command) (with_algorithm x F))
       else rest (with_algorithm x F))"
    unfolding run_learn_def F'[symmetric] pos_def rest_def Let_def by simp
  have rest: "rest (with_algorithm x f1) = map_sum id (with_algorithm x) (rest f1)" for f1
  proof (cases "create_instances E f1")
    case (Inl f2)
    then show ?thesis
      by (simp add: rest_def create_instances_ignores_algorithm force_exit_ignores_algorithm)
  next
    case c: (Inr f2)
    show ?thesis
    proof (cases "set_parameters E 0 (num_params (opt f2)) f2")
      case (Inl e)
      then show ?thesis using c
        by (simp add: rest_def create_instances_ignores_algorithm with_algorithm_fields
              set_parameters_ignores_algorithm)
    next
      case s: (Inr f3)
      let ?g = "emit [Fprintf Stdout ''Start time of the training: %s\<newline>''
                        [S (timestamp E (out f3))],
                      Fprintf Stdout ''\<newline>'' [],
                      Fprintf Stdout ''Reading the data set(s)\<newline>'' []] f3"
      show ?thesis
        using c s
        by (cases "read_data_sets E pos 0 ?g")
           (simp_all add: rest_def create_instances_ignores_algorithm with_algorithm_fields
              set_parameters_ignores_algorithm emit_with_algorithm
              read_data_sets_ignores_algorithm force_exit_ignores_algorithm
              start_training_ignores_algorithm)
    qed
  qed
  show ?thesis
    unfolding r1 r2
    by (simp add: rest with_algorithm_updates emit_with_algorithm force_exit_ignores_algorithm)
qed

subsection \<open>The split of a raw parameter\<close>

lemma split_param_shape:
  "(case split_param s of
      (n, None) \<Rightarrow> n = s \<and> CHR ''='' \<notin> set s
    | (n, Some v) \<Rightarrow> s = n @ ''='' @ v \<and> CHR ''='' \<notin> set n)"
proof (cases "CHR ''='' \<in> set s")
  case True
  from split_at_first[OF True] have "s = takeWhile (\<lambda>x. x \<noteq> CHR ''='') s @ ''='' @ tl (dropWhile (\<lambda>x. x \<noteq> CHR ''='') s)"
    by simp
  moreover have "CHR ''='' \<notin> set (takeWhile (\<lambda>x. x \<noteq> CHR ''='') s)"
    by (auto dest: set_takeWhileD)
  ultimately show ?thesis using True by (simp add: split_param_def)
next
  case False
  then show ?thesis by (auto simp: split_param_def)
qed

subsection \<open>The handler of the feature flag\<close>

text \<open>
  On options whose feature-type string is allocated, the handler of \<open>-f\<close>/\<open>--feature\<close>
  frees that string and stores a new copy of the argument in the field \<open>model\<close>: the
  field \<open>type\<close> is not assigned and points to the block just freed, and the block
  \<open>model\<close> pointed to before is left as it was.
\<close>

lemma feature_handler_allocated:
  assumes "k = Short CHR ''f'' \<or> k = Long ''feature''"
    and "type po = Some t" "t < length h" "h ! t \<noteq> Freed"
  shows "parse_learn_options at k arg (po, h) =
           Inr (1, po\<lparr>model := Some (length h)\<rparr>,
                h[t := Freed] @ [Live (Chars (cstr arg @ [NUL]))]) \<and>
         load_str (Some (length h)) 0 (h[t := Freed] @ [Live (Chars (cstr arg @ [NUL]))]) =
           Inr (cstr arg) \<and>
         type (po\<lparr>model := Some (length h)\<rparr>) = Some t \<and>
         (h[t := Freed] @ [Live (Chars (cstr arg @ [NUL]))]) ! t = Freed"
proof -
  have fr: "free (type po) h = Inr (h[t := Freed])" using assms(2-4) by simp
  have run: "parse_learn_options at k arg (po, h) =
           Inr (1, po\<lparr>model := Some (length h)\<rparr>,
                h[t := Freed] @ [Live (Chars (cstr arg @ [NUL]))])"
    using assms(1) fr
    by (auto simp: parse_learn_options_def SHORTOPT_def LONGOPT_def mystrdup_eq
             simp del: free.simps)
  have ld: "load_str (Some (length h)) 0 (h[t := Freed] @ [Live (Chars (cstr arg @ [NUL]))]) =
           Inr (cstr arg)"
    using holds_string_new[of "h[t := Freed]" arg] load_str_holds by fastforce
  have "(h[t := Freed] @ [Live (Chars (cstr arg @ [NUL]))]) ! t = Freed"
    using assms(3) by (simp add: nth_append)
  with run ld assms(2) show ?thesis by simp
qed

subsection \<open>Concrete runs\<close>

text \<open>
  Claim C5. The claim: a positional DATA argument \<open>-\<close> makes the run read standard input,
  and so does leaving DATA out. The usage text of the source says the same ("If argument
  DATA is omitted or '-', this utility reads a data from STDIN"). The run of the command
  with no argument at all, every collaborator succeeding, shows the second half failing:
  \<open>read_data\<close> is never called, on no stream, and \<open>train\<close> is called all the same (on the
  empty data set), the run returning 0. With the argument \<open>-\<close> the run does read standard
  input.
\<close>

theorem omitted_data_reads_nothing:
  "(case main_learn fair [''learn''] ''crfsuite'' of
      Inl e \<Rightarrow> False
    | Inr f \<Rightarrow>
        read_calls (out f) = [] \<and>
        train_calls (out f) = [(''crfsuite.model'', - 1, 0)] \<and> ret f = 0) \<and>
   (case main_learn fair [''learn'', ''-''] ''crfsuite'' of
      Inl e \<Rightarrow> False
    | Inr f \<Rightarrow> read_calls (out f) = [(Stdin, 0)])"
  by code_simp

text \<open>
  Claim C6. The claim: on every exit path all strings the options own (output path,
  algorithm name, feature type, every raw parameter) are freed exactly once by
  \<open>learn_option_finish\<close>. The run of the command with no argument ends with the block of
  the output path freed and the blocks of the algorithm name (\<open>lbfgs\<close>) and of the feature
  type (\<open>dyad\<close>) still allocated: \<open>learn_option_finish\<close> frees \<open>model\<close> and \<open>params\<close> only.
\<close>

theorem algorithm_and_type_never_freed:
  "(case main_learn fair [''learn''] ''crfsuite'' of
      Inl e \<Rightarrow> False
    | Inr f \<Rightarrow>
        model (opt f) = Some 0 \<and> algorithm (opt f) = Some 1 \<and> type (opt f) = Some 2 \<and>
        mem f = [Freed, Live (Chars (''lbfgs'' @ [NUL])), Live (Chars (''dyad'' @ [NUL]))])"
  by code_simp

subsection \<open>Leaving through \<open>force_exit\<close>\<close>

text \<open>
  Claim C1. Every exit path of \<open>main_learn\<close> (failed parse, help, a failed creation, a
  file that does not open, training failed or done) passes the one cleanup point, which
  releases the trainer, then the label dictionary, then the attribute dictionary: the
  objects created are \<open>1\<close> (attributes), \<open>2\<close> (labels), \<open>3\<close> (trainer), the first \<open>j\<close> of
  them, and the run ends with their releases in the reverse order, each once and none
  before, followed by \<open>crf_data_finish\<close>; the three pointers are \<open>NULL\<close> afterwards.
  \<open>SAFE_RELEASE\<close> does nothing on \<open>NULL\<close>, and nothing when applied a second time. The run
  returns no frame only when \<open>option_parse\<close> itself ran into an invalid \<open>free\<close>.
\<close>

theorem main_learn_cleanup:
  "(case main_learn E (command # args) argv0 of
      Inl e \<Rightarrow> parsed E args = Inl e
    | Inr f \<Rightarrow>
        (\<exists>j body. j \<le> 3 \<and> created (out f) = take j [1, 2, 3] \<and>
           released (out f) = rev (take j [1, 2, 3]) \<and>
           out f = body @ map Release (rev (take j [1, 2, 3])) @ [DataFinish] \<and>
           released body = []) \<and>
        trainer f = None \<and> labels f = None \<and> attrs f = None) \<and>
   SAFE_RELEASE None tr = (None, tr) \<and>
   SAFE_RELEASE (fst (SAFE_RELEASE p tr)) (snd (SAFE_RELEASE p tr)) = SAFE_RELEASE p tr"
proof -
  have "case main_learn E (command # args) argv0 of
      Inl e \<Rightarrow> parsed E args = Inl e
    | Inr f \<Rightarrow>
        (\<exists>j body. j \<le> 3 \<and> created (out f) = take j [1, 2, 3] \<and>
           released (out f) = rev (take j [1, 2, 3]) \<and>
           out f = body @ map Release (rev (take j [1, 2, 3])) @ [DataFinish] \<and>
           released body = []) \<and>
        trainer f = None \<and> labels f = None \<and> attrs f = None"
  proof (cases "parsed E args")
    case (Inl e)
    then show ?thesis by (simp add: main_learn_Inl)
  next
    case (Inr r)
    obtain n po h where r: "r = (n, po, h)" by (cases r)
    from parsed_ok[OF Inr[unfolded r]] obtain ps ss where
      ok: "opt_ok po h ps" and hs: "list_all2 (holds_string h) ps ss" by blast
    note m = main_learn_run[OF Inr[unfolded r], of command argv0]
    from ok hs show ?thesis
    proof (cases rule: run_learn_cases[where E = E and n = n and args = args
          and prog = argv0 and command = command])
      case (parse_error f)
      then show ?thesis
        by (auto simp: m dest: handles_empty intro!: exI[of _ 0] exI[of _ "[DataInit]"])
    next
      case (usage f)
      then show ?thesis
        by (auto simp: m show_usage_def dest: handles_empty
              intro!: exI[of _ 0] exI[of _ "DataInit # show_usage Stdout argv0 command"])
    next
      case (no_attrs f)
      then show ?thesis
        by (auto simp: m dest: handles_empty intro!: exI[of _ 0]
              exI[of _ "[DataInit, Create ''dictionary'' None,
                Fprintf Stderr ''ERROR: Failed to create a dictionary instance.\<newline>'' []]"])
    next
      case (no_labels f)
      then show ?thesis
        by (auto simp: m dest: handles_empty intro!: exI[of _ 1]
              exI[of _ "[DataInit, Create ''dictionary'' (Some 1), Create ''dictionary'' None,
                Fprintf Stderr ''ERROR: Failed to create a dictionary instance.\<newline>'' []]"])
    next
      case (no_trainer f)
      then show ?thesis
        by (auto simp: m dest: handles_empty intro!: exI[of _ 2]
              exI[of _ "[DataInit, Create ''dictionary'' (Some 1), Create ''dictionary'' (Some 2),
                Create ''train/crf1d/lbfgs'' None,
                Fprintf Stderr ''ERROR: Failed to create a trainer instance.\<newline>'' []]"])
    next
      case (no_file f body k)
      then show ?thesis
        by (auto simp: m dest: handles_empty intro!: exI[of _ 3]
              exI[of _ "[DataInit, Create ''dictionary'' (Some 1), Create ''dictionary'' (Some 2),
                Create ''train/crf1d/lbfgs'' (Some 3)] @ body"])
    next
      case (trained f body path)
      then show ?thesis
        by (auto simp: m dest: handles_empty intro!: exI[of _ 3]
              exI[of _ "[DataInit, Create ''dictionary'' (Some 1), Create ''dictionary'' (Some 2),
                Create ''train/crf1d/lbfgs'' (Some 3)] @ body"])
    qed
  qed
  moreover have "SAFE_RELEASE None tr = (None, tr)" by (simp add: SAFE_RELEASE_def)
  ultimately show ?thesis using SAFE_RELEASE_idem[of p tr] by simp
qed

theorem main_learn_cleanup_witness:
  "\<exists>f. main_learn (setting (\<lambda>iid. if iid = ''dictionary'' then 1 else 0) (\<lambda>n. 0) (\<lambda>n. True) (\<lambda>fp. 0) 0)
          [''learn'', ''-p'', ''c2=1'', ''A.txt''] ''crfsuite'' = Inr f \<and>
       created (out f) = [1, 2] \<and> released (out f) = [2, 1] \<and> ret f = 1 \<and>
       trainer f = None \<and> labels f = None \<and> attrs f = None"
proof -
  let ?E = "setting (\<lambda>iid. if iid = ''dictionary'' then 1 else 0) (\<lambda>n. 0) (\<lambda>n. True) (\<lambda>fp. 0) 0"
  have "case main_learn ?E [''learn'', ''-p'', ''c2=1'', ''A.txt''] ''crfsuite'' of
          Inl e \<Rightarrow> False | Inr f \<Rightarrow> created (out f) = [1, 2] \<and> ret f = 1"
    by code_simp
  then obtain f where
    run: "main_learn ?E [''learn'', ''-p'', ''c2=1'', ''A.txt''] ''crfsuite'' = Inr f"
    and cr: "created (out f) = [1, 2]" and rt: "ret f = 1"
    by (auto split: sum.splits)
  have "case main_learn ?E (''learn'' # [''-p'', ''c2=1'', ''A.txt'']) ''crfsuite'' of
      Inl e \<Rightarrow> parsed ?E [''-p'', ''c2=1'', ''A.txt''] = Inl e
    | Inr f \<Rightarrow>
        (\<exists>j body. j \<le> 3 \<and> created (out f) = take j [1, 2, 3] \<and>
           released (out f) = rev (take j [1, 2, 3]) \<and>
           out f = body @ map Release (rev (take j [1, 2, 3])) @ [DataFinish] \<and>
           released body = []) \<and>
        trainer f = None \<and> labels f = None \<and> attrs f = None"
    by (rule conjunct1[OF main_learn_cleanup[where tr = "[]" and p = None]])
  with run have "\<exists>j. created (out f) = take j [1, 2, 3] \<and> released (out f) = rev (take j [1, 2, 3])"
    and nul: "trainer f = None" "labels f = None" "attrs f = None"
    by auto
  then obtain j where j: "created (out f) = take j [1, 2, 3]" "released (out f) = rev (take j [1, 2, 3])"
    by blast
  from j(1) cr have "length (take j [1::nat, 2, 3]) = length [1::nat, 2]" by metis
  then have "j = 2" by simp
  with j(2) have "released (out f) = [2, 1]" by simp
  with run cr rt nul show ?thesis by blast
qed

subsection \<open>Help\<close>

text \<open>
  Claim C9. When \<open>option_parse\<close> succeeds (a non-negative index) and left the help flag
  set, the run prints the usage text on standard output and returns 0; it asks
  \<open>crf_create_instance\<close> for nothing, creates no object and writes nothing on the error
  stream. The whole trace of the run is \<open>crf_data_init\<close>, the nine \<open>fprintf\<close> calls of the
  usage text on \<open>stdout\<close>, in this order and with the program name and the command as
  the arguments of the first, and \<open>crf_data_finish\<close>; that list is \<open>show_usage\<close> called on
  \<open>stdout\<close>.
\<close>

theorem help_prints_usage_and_exits:
  assumes "parsed E args = Inr (n, po, h)" "0 \<le> n" "help_flag po \<noteq> 0"
  shows "\<exists>f. main_learn E (command # args) argv0 = Inr f \<and> ret f = 0 \<and>
           out f =
             DataInit #
             [Fprintf Stdout ''USAGE: %s %s [OPTIONS] [DATA]\<newline>'' [S (cstr argv0), S (cstr command)],
              Fprintf Stdout ''Obtain a model from a training set of instances given by a file (DATA).\<newline>'' [],
              Fprintf Stdout ''If argument DATA is omitted or '-', this utility reads a data from STDIN.\<newline>'' [],
              Fprintf Stdout ''\<newline>'' [],
              Fprintf Stdout ''OPTIONS:\<newline>'' [],
              Fprintf Stdout ''    -m, --model=MODEL   Store the obtained model in a file (MODEL)\<newline>'' [],
              Fprintf Stdout ''    -t, --test=TEST     Report the performance of the model on a data (TEST)\<newline>'' [],
              Fprintf Stdout ''    -p, --param=NAME=VALUE  Set the parameter NAME to VALUE\<newline>'' [],
              Fprintf Stdout ''    -h, --help          Show the usage of this command and exit\<newline>'' [],
              DataFinish] \<and>
           out f = DataInit # show_usage Stdout argv0 command @ [DataFinish] \<and>
           create_kinds (out f) = [] \<and> created (out f) = [] \<and> stderr_lines (out f) = []"
proof -
  from parsed_ok[OF assms(1)] obtain ps ss where
    ok: "opt_ok po h ps" and hs: "list_all2 (holds_string h) ps ss" by blast
  note m = main_learn_run[OF assms(1), of command argv0]
  from ok hs show ?thesis
  proof (cases rule: run_learn_cases[where E = E and n = n and args = args
        and prog = argv0 and command = command])
    case (usage f)
    then show ?thesis by (auto simp: m show_usage_def)
  qed (use assms in auto)
qed

theorem help_prints_usage_and_exits_witness:
  "\<exists>f. main_learn fair [''learn'', ''-m'', ''x'', ''--help'', ''A''] ''crfsuite'' = Inr f \<and> ret f = 0 \<and>
       out f =
             DataInit #
             [Fprintf Stdout ''USAGE: %s %s [OPTIONS] [DATA]\<newline>'' [S (''crfsuite''), S (''learn'')],
              Fprintf Stdout ''Obtain a model from a training set of instances given by a file (DATA).\<newline>'' [],
              Fprintf Stdout ''If argument DATA is omitted or '-', this utility reads a data from STDIN.\<newline>'' [],
              Fprintf Stdout ''\<newline>'' [],
              Fprintf Stdout ''OPTIONS:\<newline>'' [],
              Fprintf Stdout ''    -m, --model=MODEL   Store the obtained model in a file (MODEL)\<newline>'' [],
              Fprintf Stdout ''    -t, --test=TEST     Report the performance of the model on a data (TEST)\<newline>'' [],
              Fprintf Stdout ''    -p, --param=NAME=VALUE  Set the parameter NAME to VALUE\<newline>'' [],
              Fprintf Stdout ''    -h, --help          Show the usage of this command and exit\<newline>'' [],
              DataFinish] \<and>
       create_kinds (out f) = [] \<and> created (out f) = [] \<and> stderr_lines (out f) = []"
proof -
  have p: "parsed fair [''-m'', ''x'', ''--help'', ''A''] =
      Inr (3, \<lparr>model = Some 3, algorithm = Some 1, type = Some 2, holdout = - 1, help_flag = 1,
               num_params = 0, params = None\<rparr>,
           [Freed, Live (Chars (''lbfgs'' @ [NUL])), Live (Chars (''dyad'' @ [NUL])),
            Live (Chars (''x'' @ [NUL]))])"
    by code_simp
  have c: "cstr ''crfsuite'' = ''crfsuite''" "cstr ''learn'' = ''learn''"
    by code_simp+
  have "\<exists>f. main_learn fair (''learn'' # [''-m'', ''x'', ''--help'', ''A'']) ''crfsuite'' = Inr f \<and> ret f = 0 \<and>
           out f =
             DataInit #
             [Fprintf Stdout ''USAGE: %s %s [OPTIONS] [DATA]\<newline>'' [S (cstr ''crfsuite''), S (cstr ''learn'')],
              Fprintf Stdout ''Obtain a model from a training set of instances given by a file (DATA).\<newline>'' [],
              Fprintf Stdout ''If argument DATA is omitted or '-', this utility reads a data from STDIN.\<newline>'' [],
              Fprintf Stdout ''\<newline>'' [],
              Fprintf Stdout ''OPTIONS:\<newline>'' [],
              Fprintf Stdout ''    -m, --model=MODEL   Store the obtained model in a file (MODEL)\<newline>'' [],
              Fprintf Stdout ''    -t, --test=TEST     Report the performance of the model on a data (TEST)\<newline>'' [],
              Fprintf Stdout ''    -p, --param=NAME=VALUE  Set the parameter NAME to VALUE\<newline>'' [],
              Fprintf Stdout ''    -h, --help          Show the usage of this command and exit\<newline>'' [],
              DataFinish] \<and>
           out f = DataInit # show_usage Stdout ''crfsuite'' ''learn'' @ [DataFinish] \<and>
           create_kinds (out f) = [] \<and> created (out f) = [] \<and> stderr_lines (out f) = []"
    by (rule help_prints_usage_and_exits[OF p]) simp_all
  with c show ?thesis by auto
qed

subsection \<open>Parameters\<close>

text \<open>
  Claim C4. When the run reaches the parameter loop (the three objects are created),
  the calls of \<open>set\<close> are, in the order of the argument list, the raw parameters (the
  arguments of the \<open>-p\<close>/\<open>--param\<close> flags) split as the spec words it: the name is what
  precedes the first \<open>=\<close>, the value what follows it, later \<open>=\<close> included, and the value
  is \<open>NULL\<close> when there is no \<open>=\<close>, which differs from the empty value of \<open>NAME=\<close>.
\<close>

theorem parameters_split_at_first_equals:
  assumes "main_learn E (command # args) argv0 = Inr f" "created (out f) = [1, 2, 3]"
  shows "set_calls (out f) = map split_param (raw_params (fst (option_scan E args))) \<and>
         (case split_param s of
            (n, None) \<Rightarrow> n = s \<and> CHR ''='' \<notin> set s
          | (n, Some v) \<Rightarrow> s = n @ ''='' @ v \<and> CHR ''='' \<notin> set n) \<and>
         split_param ''NAME=A=B'' = (''NAME'', Some ''A=B'') \<and>
         split_param ''NAME'' = (''NAME'', None) \<and>
         split_param ''NAME='' = (''NAME'', Some [])"
proof -
  from assms(1) obtain n po h where p: "parsed E args = Inr (n, po, h)"
    by (cases "parsed E args") (auto simp: main_learn_def)
  from parsed_ok[OF p] obtain ps ss where
    ok: "opt_ok po h ps" and hs: "list_all2 (holds_string h) ps ss"
    and ss: "0 \<le> n \<longrightarrow> ss = raw_params (fst (option_scan E args))" by blast
  note m = main_learn_run[OF p, of command argv0]
  have "set_calls (out f) = map split_param (raw_params (fst (option_scan E args)))"
    using ok hs
  proof (cases rule: run_learn_cases[where E = E and n = n and args = args
        and prog = argv0 and command = command])
    case (no_file g body k)
    with assms ss show ?thesis by (simp add: m)
  next
    case (trained g body path)
    with assms ss show ?thesis by (simp add: m)
  qed (use assms in \<open>auto simp: m show_usage_def\<close>)
  moreover have "split_param ''NAME=A=B'' = (''NAME'', Some ''A=B'')"
    "split_param ''NAME'' = (''NAME'', None)" "split_param ''NAME='' = (''NAME'', Some [])"
    by (simp_all add: split_param_def)
  ultimately show ?thesis using split_param_shape[of s] by simp
qed

theorem parameters_split_at_first_equals_witness:
  "\<exists>f. main_learn fair [''learn'', ''-p'', ''c2=0.5=x'', ''--param=q'', ''-p'', ''z='', ''A''] ''crfsuite'' = Inr f \<and>
       created (out f) = [1, 2, 3] \<and>
       set_calls (out f) = [(''c2'', Some ''0.5=x''), (''q'', None), (''z'', Some [])]"
proof -
  have "case main_learn fair [''learn'', ''-p'', ''c2=0.5=x'', ''--param=q'', ''-p'', ''z='', ''A''] ''crfsuite'' of
          Inl e \<Rightarrow> False | Inr f \<Rightarrow> created (out f) = [1, 2, 3]"
    by code_simp
  then obtain f where
    run: "main_learn fair [''learn'', ''-p'', ''c2=0.5=x'', ''--param=q'', ''-p'', ''z='', ''A''] ''crfsuite'' = Inr f"
    and cr: "created (out f) = [1, 2, 3]"
    by (auto split: sum.splits)
  have sc: "raw_params (fst (option_scan fair [''-p'', ''c2=0.5=x'', ''--param=q'', ''-p'', ''z='', ''A'']))
            = [''c2=0.5=x'', ''q'', ''z='']"
    by code_simp
  from parameters_split_at_first_equals[OF run cr]
  have "set_calls (out f) = map split_param [''c2=0.5=x'', ''q'', ''z='']"
    unfolding sc by simp
  then have "set_calls (out f) = [(''c2'', Some ''0.5=x''), (''q'', None), (''z'', Some [])]"
    by (simp add: split_param_def)
  with run cr show ?thesis by blast
qed

subsection \<open>Reading the files\<close>

text \<open>
  Claim C8. When the run reaches the reading of the data (the three objects are
  created), \<open>read_data\<close> is called on the positional arguments in their listing order,
  the argument at position \<open>j\<close> (counted from 0) with the group id \<open>j\<close>, whatever
  \<open>read_data\<close> returns: on the first \<open>m\<close> of them, where \<open>m\<close> is their number when every
  file opens, and the position of the first file that does not open otherwise. The
  stream is standard input for the argument \<open>-\<close> and the named file for any other.
\<close>

theorem files_read_in_order_with_group_ids:
  assumes "main_learn E (command # args) argv0 = Inr f" "created (out f) = [1, 2, 3]"
  shows "\<exists>m. read_calls (out f) =
               map (\<lambda>j. (stream_of (positional E args ! j), int j)) [0..<m] \<and>
             (m = length (positional E args) \<and> open_failures (out f) = [] \<or>
              m < length (positional E args) \<and>
              open_failures (out f) = [cstr (positional E args ! m)])"
proof -
  from assms(1) obtain n po h where p: "parsed E args = Inr (n, po, h)"
    by (cases "parsed E args") (auto simp: main_learn_def)
  from parsed_ok[OF p] obtain ps ss where
    ok: "opt_ok po h ps" and hs: "list_all2 (holds_string h) ps ss" by blast
  note m = main_learn_run[OF p, of command argv0]
  from ok hs show ?thesis
  proof (cases rule: run_learn_cases[where E = E and n = n and args = args
        and prog = argv0 and command = command])
    case (no_file g body k)
    from parsed_index[OF p no_file(1)] have pos: "positional E args = drop (nat n) args"
      by (simp add: positional_def)
    from no_file assms show ?thesis
      by (intro exI[of _ k]) (simp add: m pos)
  next
    case (trained g body path)
    from parsed_index[OF p trained(1)] have pos: "positional E args = drop (nat n) args"
      by (simp add: positional_def)
    from trained assms show ?thesis
      by (intro exI[of _ "length (drop (nat n) args)"]) (simp add: m pos)
  qed (use assms in \<open>auto simp: m show_usage_def\<close>)
qed

theorem files_read_in_order_with_group_ids_witness:
  "\<exists>f. main_learn fair [''learn'', ''-t'', ''2'', ''A.txt'', ''-'', ''C.txt''] ''crfsuite'' = Inr f \<and>
       created (out f) = [1, 2, 3] \<and>
       read_calls (out f) = [(File ''A.txt'', 0), (Stdin, 1), (File ''C.txt'', 2)]"
proof -
  have "case main_learn fair [''learn'', ''-t'', ''2'', ''A.txt'', ''-'', ''C.txt''] ''crfsuite'' of
          Inl e \<Rightarrow> False | Inr f \<Rightarrow> created (out f) = [1, 2, 3] \<and> open_failures (out f) = []"
    by code_simp
  then obtain f where
    run: "main_learn fair [''learn'', ''-t'', ''2'', ''A.txt'', ''-'', ''C.txt''] ''crfsuite'' = Inr f"
    and cr: "created (out f) = [1, 2, 3]" and nf: "open_failures (out f) = []"
    by (auto split: sum.splits)
  have pos: "positional fair [''-t'', ''2'', ''A.txt'', ''-'', ''C.txt''] = [''A.txt'', ''-'', ''C.txt'']"
    by code_simp
  have st: "stream_of ''A.txt'' = File ''A.txt''" "stream_of ''-'' = Stdin"
    "stream_of ''C.txt'' = File ''C.txt''"
    by code_simp+
  from files_read_in_order_with_group_ids[OF run cr] nf
  have "read_calls (out f) = [(stream_of ''A.txt'', 0), (stream_of ''-'', 1), (stream_of ''C.txt'', 2)]"
    unfolding pos by (auto simp: upt_rec)
  also have "\<dots> = [(File ''A.txt'', 0), (Stdin, 1), (File ''C.txt'', 2)]"
    by (simp add: st)
  finally show ?thesis using run cr by blast
qed

subsection \<open>Files that do not open, files that do not read\<close>

text \<open>
  Claim C3. The claim: a named file that fails to open or fails to read aborts the run
  before training, with exit code 1 and a diagnostic naming the file. What \<open>read_data\<close>
  returns is dropped by \<open>main_learn\<close>, so the half on reading fails: in the run below
  \<open>read_data\<close> answers \<open>-1\<close> for the only file, and \<open>train\<close> is called, nothing is
  written on the error stream and the run returns 0.
\<close>

theorem read_failure_does_not_abort:
  "(case main_learn (setting (\<lambda>iid. 1) (\<lambda>n. 0) (\<lambda>n. True) (\<lambda>fp. - 1) 0)
           [''learn'', ''A.txt''] ''crfsuite'' of
      Inl e \<Rightarrow> False
    | Inr f \<Rightarrow>
        ReadData (File ''A.txt'') 0 (- 1) \<in> set (out f) \<and>
        train_calls (out f) = [(''crfsuite.model'', - 1, 0)] \<and>
        stderr_lines (out f) = [] \<and> ret f = 0)"
  by code_simp


text \<open>
  Claim C3, as amended. A named file that fails to open aborts the run: the files
  listed before it have been read, the one diagnostic on the error stream names the
  failing file, \<open>train\<close> is not called and the run returns 1. (A run with no failed
  opening is the other case; no frame is returned only when \<open>option_parse\<close> ran into an
  invalid \<open>free\<close>.)
\<close>

theorem open_failure_aborts_before_training:
  "(case main_learn E (command # args) prog of
      Inl e \<Rightarrow> parsed E args = Inl e
    | Inr f \<Rightarrow>
        open_failures (out f) = [] \<or>
        (\<exists>m. m < length (positional E args) \<and>
           open_failures (out f) = [cstr (positional E args ! m)] \<and>
           stderr_lines (out f) =
             [(''ERROR: Failed to open the data set: %s\<newline>'', [S (cstr (positional E args ! m))])] \<and>
           ret f = 1 \<and> train_calls (out f) = [] \<and>
           read_calls (out f) = map (\<lambda>j. (stream_of (positional E args ! j), int j)) [0..<m]))"
proof (cases "parsed E args")
  case (Inl e)
  then show ?thesis by (simp add: main_learn_Inl)
next
  case (Inr r)
  obtain n po h where r: "r = (n, po, h)" by (cases r)
  note p = Inr[unfolded r]
  from parsed_ok[OF p] obtain ps ss where
    ok: "opt_ok po h ps" and hs: "list_all2 (holds_string h) ps ss" by blast
  note m = main_learn_run[OF p, of command prog]
  from ok hs show ?thesis
  proof (cases rule: run_learn_cases[where E = E and n = n and args = args
        and prog = prog and command = command])
    case (no_file g body k)
    from parsed_index[OF p no_file(1)] have pos: "positional E args = drop (nat n) args"
      by (simp add: positional_def)
    from no_file show ?thesis
      by (simp add: m pos) (intro disjI2 exI[of _ k], simp)
  qed (auto simp: m show_usage_def)
qed

theorem open_failure_aborts_before_training_witness:
  "(case main_learn (setting (\<lambda>iid. 1) (\<lambda>n. 0) (\<lambda>n. n = ''A.txt'') (\<lambda>fp. 0) 0)
           [''learn'', ''A.txt'', ''B.txt'', ''C.txt''] ''crfsuite'' of
      Inl e \<Rightarrow> False
    | Inr f \<Rightarrow>
        open_failures (out f) = [''B.txt''] \<and>
        stderr_lines (out f) = [(''ERROR: Failed to open the data set: %s\<newline>'', [S ''B.txt''])] \<and>
        ret f = 1 \<and> train_calls (out f) = [] \<and> read_calls (out f) = [(File ''A.txt'', 0)])"
proof -
  let ?E = "setting (\<lambda>iid. 1) (\<lambda>n. 0) (\<lambda>n. n = ''A.txt'') (\<lambda>fp. 0) 0"
  let ?args = "[''A.txt'', ''B.txt'', ''C.txt'']"
  have ev: "case main_learn ?E (''learn'' # ?args) ''crfsuite'' of
          Inl e \<Rightarrow> False | Inr f \<Rightarrow> open_failures (out f) = [''B.txt''] \<and> read_calls (out f) = [(File ''A.txt'', 0)]"
    by code_simp
  then obtain f where run: "main_learn ?E (''learn'' # ?args) ''crfsuite'' = Inr f"
    and o: "open_failures (out f) = [''B.txt'']" and rc: "read_calls (out f) = [(File ''A.txt'', 0)]"
    by (auto split: sum.splits)
  have pos: "positional ?E ?args = ?args" by code_simp
  have c: "cstr ''A.txt'' = ''A.txt''" "cstr ''B.txt'' = ''B.txt''" "cstr ''C.txt'' = ''C.txt''"
    by code_simp+
  from open_failure_aborts_before_training[where E = ?E and command = "''learn''" and args = ?args
      and prog = "''crfsuite''"] run o
  have "\<exists>m. m < 3 \<and> [''B.txt''] = [cstr (?args ! m)] \<and>
          stderr_lines (out f) =
            [(''ERROR: Failed to open the data set: %s\<newline>'', [S (cstr (?args ! m))])] \<and>
          ret f = 1 \<and> train_calls (out f) = []"
    unfolding pos by (auto simp: numeral_3_eq_3)
  then obtain m where m: "m < 3" "[''B.txt''] = [cstr (?args ! m)]"
    "stderr_lines (out f) =
       [(''ERROR: Failed to open the data set: %s\<newline>'', [S (cstr (?args ! m))])]"
    "ret f = 1" "train_calls (out f) = []"
    by blast
  from m(1,2) have "m = 1" using c by (auto simp: less_Suc_eq numeral_3_eq_3)
  with m c run o rc show ?thesis by simp
qed

subsection \<open>A parameter the trainer rejects\<close>

text \<open>
  Claim C2. The claim: when \<open>set\<close> returns an error for a parameter name, the run is
  aborted with a non-zero exit, the name is reported and training is never invoked.
  \<open>main_learn\<close> drops what \<open>set\<close> returns: in the run below \<open>set\<close> answers \<open>-1\<close> for the
  parameter \<open>bogus\<close>, nothing is written on the error stream, \<open>train\<close> is called and the
  run returns 0.
\<close>

theorem rejected_parameter_does_not_abort:
  "(case main_learn (setting (\<lambda>iid. 1) (\<lambda>n. - 1) (\<lambda>n. True) (\<lambda>fp. 0) 0)
           [''learn'', ''-p'', ''bogus=1'', ''A.txt''] ''crfsuite'' of
      Inl e \<Rightarrow> False
    | Inr f \<Rightarrow>
        SetParam ''bogus'' (Some ''1'') (- 1) \<in> set (out f) \<and>
        train_calls (out f) = [(''crfsuite.model'', - 1, 0)] \<and>
        stderr_lines (out f) = [] \<and> ret f = 0)"
  by code_simp


text \<open>
  Claim C2, as amended. Whatever \<open>set\<close> returns, a run in which the three objects are
  created and no file fails to open applies every raw parameter in order, writes
  nothing on the error stream, and calls \<open>train\<close> once, whose result is what the run
  returns.
\<close>

theorem set_result_is_ignored:
  assumes "main_learn E (command # args) prog = Inr f" "created (out f) = [1, 2, 3]"
    "open_failures (out f) = []"
  shows "set_calls (out f) = map split_param (raw_params (fst (option_scan E args))) \<and>
         stderr_lines (out f) = [] \<and>
         (\<exists>path hold. train_calls (out f) = [(path, hold, ret f)])"
proof -
  from assms(1) obtain n po h where p: "parsed E args = Inr (n, po, h)"
    by (cases "parsed E args") (auto simp: main_learn_def)
  from parsed_ok[OF p] obtain ps ss where
    ok: "opt_ok po h ps" and hs: "list_all2 (holds_string h) ps ss"
    and ss: "0 \<le> n \<longrightarrow> ss = raw_params (fst (option_scan E args))" by blast
  note m = main_learn_run[OF p, of command prog]
  from ok hs show ?thesis
  proof (cases rule: run_learn_cases[where E = E and n = n and args = args
        and prog = prog and command = command])
    case (trained g body path)
    with assms ss show ?thesis by (simp add: m)
  qed (use assms in \<open>auto simp: m show_usage_def\<close>)
qed

theorem set_result_is_ignored_witness:
  "\<exists>f. main_learn (setting (\<lambda>iid. 1) (\<lambda>n. 1) (\<lambda>n. True) (\<lambda>fp. 0) 0)
          [''learn'', ''-p'', ''no.such.parameter=3'', ''-p'', ''other'', ''A.txt''] ''crfsuite'' = Inr f \<and>
       created (out f) = [1, 2, 3] \<and> open_failures (out f) = [] \<and>
       set_calls (out f) = [(''no.such.parameter'', Some ''3''), (''other'', None)] \<and>
       stderr_lines (out f) = [] \<and> (\<exists>path hold. train_calls (out f) = [(path, hold, ret f)])"
proof -
  let ?E = "setting (\<lambda>iid. 1) (\<lambda>n. 1) (\<lambda>n. True) (\<lambda>fp. 0) 0"
  let ?args = "[''-p'', ''no.such.parameter=3'', ''-p'', ''other'', ''A.txt'']"
  have "case main_learn ?E (''learn'' # ?args) ''crfsuite'' of
          Inl e \<Rightarrow> False | Inr f \<Rightarrow> created (out f) = [1, 2, 3] \<and> open_failures (out f) = []"
    by code_simp
  then obtain f where run: "main_learn ?E (''learn'' # ?args) ''crfsuite'' = Inr f"
    and cr: "created (out f) = [1, 2, 3]" and nf: "open_failures (out f) = []"
    by (auto split: sum.splits)
  have sc: "map split_param (raw_params (fst (option_scan ?E ?args))) =
              [(''no.such.parameter'', Some ''3''), (''other'', None)]"
    by code_simp
  from set_result_is_ignored[OF run cr nf] run cr nf show ?thesis
    unfolding sc by blast
qed

subsection \<open>The feature flag\<close>

text \<open>
  Claim C7. The handler of \<open>-f\<close>/\<open>--feature\<close> is \<open>free(opt->type); opt->model = mystrdup(arg);\<close>.
  It stores the copy of \<open>TYPE\<close> in the field \<open>model\<close> and not in \<open>type\<close>, as the claim says,
  and it never assigns \<open>opt->type\<close>, where the handlers of \<open>-m\<close> and \<open>-a\<close> assign the field
  they free. So on the initial options \<open>-f a\<close> leaves \<open>model\<close> on a new block holding
  \<open>a\<close> and \<open>type\<close> on the block it freed, and for an argument list with a second such flag,
  \<open>learn -f a -f b\<close>, there is no feature-type string left to free: the first statement of
  the handler, \<open>free(opt->type)\<close>, is called on a block that is already freed. That call
  is undefined in C. The model gives it, and the run that makes it, the value
  \<open>Inl InvalidFree\<close>, and says nothing of what follows the call (an allocator that does
  not notice the second \<open>free\<close> goes on to the assignment and overwrites \<open>model\<close> with \<open>b\<close>).
\<close>

theorem second_feature_flag_frees_freed_block:
  "parse_learn_options atoi_dec (Short CHR ''f'') ''a'' (learn_option_init []) =
     Inr (1, \<lparr>model = Some 3, algorithm = Some 1, type = Some 2, holdout = - 1, help_flag = 0,
              num_params = 0, params = None\<rparr>,
          [Live (Chars (''crfsuite.model'' @ [NUL])), Live (Chars (''lbfgs'' @ [NUL])), Freed,
           Live (Chars (''a'' @ [NUL]))]) \<and>
   free (type \<lparr>model = Some 3, algorithm = Some 1, type = Some 2, holdout = - 1, help_flag = 0,
               num_params = 0, params = None\<rparr>)
     [Live (Chars (''crfsuite.model'' @ [NUL])), Live (Chars (''lbfgs'' @ [NUL])), Freed,
      Live (Chars (''a'' @ [NUL]))] = Inl InvalidFree \<and>
   parsed fair [''-f'', ''a'', ''-f'', ''b''] = Inl InvalidFree \<and>
   main_learn fair [''learn'', ''-f'', ''a'', ''-f'', ''b''] ''crfsuite'' = Inl InvalidFree \<and>
   (\<exists>f. main_learn fair [''learn'', ''-f'', ''a''] ''crfsuite'' = Inr f \<and> ret f = 0 \<and>
      mem f = [Live (Chars (''crfsuite.model'' @ [NUL])), Live (Chars (''lbfgs'' @ [NUL])), Freed,
               Freed])"
proof -
  have "case main_learn fair [''learn'', ''-f'', ''a''] ''crfsuite'' of
          Inl e \<Rightarrow> False
        | Inr f \<Rightarrow> ret f = 0 \<and>
            mem f = [Live (Chars (''crfsuite.model'' @ [NUL])), Live (Chars (''lbfgs'' @ [NUL])),
                     Freed, Freed]"
    by code_simp
  then have one: "\<exists>f. main_learn fair [''learn'', ''-f'', ''a''] ''crfsuite'' = Inr f \<and> ret f = 0 \<and>
      mem f = [Live (Chars (''crfsuite.model'' @ [NUL])), Live (Chars (''lbfgs'' @ [NUL])), Freed,
               Freed]"
    by (auto split: sum.splits)
  have two: "parse_learn_options atoi_dec (Short CHR ''f'') ''a'' (learn_option_init []) =
     Inr (1, \<lparr>model = Some 3, algorithm = Some 1, type = Some 2, holdout = - 1, help_flag = 0,
              num_params = 0, params = None\<rparr>,
          [Live (Chars (''crfsuite.model'' @ [NUL])), Live (Chars (''lbfgs'' @ [NUL])), Freed,
           Live (Chars (''a'' @ [NUL]))]) \<and>
   free (type \<lparr>model = Some 3, algorithm = Some 1, type = Some 2, holdout = - 1, help_flag = 0,
               num_params = 0, params = None\<rparr>)
     [Live (Chars (''crfsuite.model'' @ [NUL])), Live (Chars (''lbfgs'' @ [NUL])), Freed,
      Live (Chars (''a'' @ [NUL]))] = Inl InvalidFree \<and>
   parsed fair [''-f'', ''a'', ''-f'', ''b''] = Inl InvalidFree \<and>
   main_learn fair [''learn'', ''-f'', ''a'', ''-f'', ''b''] ''crfsuite'' = Inl InvalidFree"
    by code_simp
  from two one show ?thesis by blast
qed

subsection \<open>The trainer that is created\<close>

text \<open>
  Claim C10. For every option set the kinds asked of \<open>crf_create_instance\<close> are, in this
  order and as far as the run gets, \<open>dictionary\<close>, \<open>dictionary\<close> and the fixed
  \<open>train/crf1d/lbfgs\<close>: the trainer is never of another kind. What the flag
  \<open>-a\<close>/\<open>--algorithm\<close> stored is not consulted: with any other pointer in the field
  \<open>algorithm\<close>, all that follows \<open>option_parse\<close> returns the same error, or the same exit
  code, events and heap, the frames differing in that field alone.
\<close>

theorem trainer_kind_is_fixed:
  "(case main_learn E (command # args) prog of
      Inl e \<Rightarrow> parsed E args = Inl e
    | Inr f \<Rightarrow>
        (\<exists>j. j \<le> 3 \<and>
           create_kinds (out f) = take j [''dictionary'', ''dictionary'', ''train/crf1d/lbfgs''])) \<and>
   run_learn E prog command args n (po\<lparr>algorithm := x\<rparr>, h) =
     map_sum id (with_algorithm x) (run_learn E prog command args n (po, h))"
proof -
  have "case main_learn E (command # args) prog of
      Inl e \<Rightarrow> parsed E args = Inl e
    | Inr f \<Rightarrow>
        (\<exists>j. j \<le> 3 \<and>
           create_kinds (out f) = take j [''dictionary'', ''dictionary'', ''train/crf1d/lbfgs''])"
  proof (cases "parsed E args")
    case (Inl e)
    then show ?thesis by (simp add: main_learn_Inl)
  next
    case (Inr r)
    obtain n' po' h' where r: "r = (n', po', h')" by (cases r)
    from parsed_ok[OF Inr[unfolded r]] obtain ps ss where
      ok: "opt_ok po' h' ps" and hs: "list_all2 (holds_string h') ps ss" by blast
    note m = main_learn_run[OF Inr[unfolded r], of command prog]
    from ok hs show ?thesis
    proof (cases rule: run_learn_cases[where E = E and n = n' and args = args
          and prog = prog and command = command])
      case (parse_error f)
      then show ?thesis by (auto simp: m intro!: exI[of _ 0])
    next
      case (usage f)
      then show ?thesis by (auto simp: m show_usage_def intro!: exI[of _ 0])
    next
      case (no_attrs f)
      then show ?thesis by (auto simp: m intro!: exI[of _ 1])
    next
      case (no_labels f)
      then show ?thesis by (auto simp: m intro!: exI[of _ 2])
    next
      case (no_trainer f)
      then show ?thesis by (auto simp: m intro!: exI[of _ 3])
    next
      case (no_file f body k)
      then show ?thesis by (auto simp: m intro!: exI[of _ 3])
    next
      case (trained f body path)
      then show ?thesis by (auto simp: m intro!: exI[of _ 3])
    qed
  qed
  then show ?thesis using run_learn_ignores_algorithm[where E = E and prog = prog and command = command and args = args and n = n and po = po and x = x and h = h] by simp
qed

theorem trainer_kind_is_fixed_witness:
  "\<exists>f. main_learn fair [''learn'', ''-a'', ''sgd'', ''A.txt''] ''crfsuite'' = Inr f \<and>
       created (out f) = [1, 2, 3] \<and>
       create_kinds (out f) = [''dictionary'', ''dictionary'', ''train/crf1d/lbfgs'']"
proof -
  have "case main_learn fair [''learn'', ''-a'', ''sgd'', ''A.txt''] ''crfsuite'' of
          Inl e \<Rightarrow> False | Inr f \<Rightarrow> created (out f) = [1, 2, 3] \<and> length (create_kinds (out f)) = 3"
    by code_simp
  then obtain f where
    run: "main_learn fair [''learn'', ''-a'', ''sgd'', ''A.txt''] ''crfsuite'' = Inr f"
    and cr: "created (out f) = [1, 2, 3]" and len: "length (create_kinds (out f)) = 3"
    by (auto split: sum.splits)
  have "case main_learn fair (''learn'' # [''-a'', ''sgd'', ''A.txt'']) ''crfsuite'' of
      Inl e \<Rightarrow> parsed fair [''-a'', ''sgd'', ''A.txt''] = Inl e
    | Inr f \<Rightarrow>
        (\<exists>j. j \<le> 3 \<and>
           create_kinds (out f) = take j [''dictionary'', ''dictionary'', ''train/crf1d/lbfgs''])"
    by (rule conjunct1[OF trainer_kind_is_fixed[where n = 0 and x = None and h = "[]"
          and po = "fst (learn_option_init [])"]])
  with run have "\<exists>j. j \<le> 3 \<and>
      create_kinds (out f) = take j [''dictionary'', ''dictionary'', ''train/crf1d/lbfgs'']"
    by simp
  then obtain j where j: "j \<le> 3"
    "create_kinds (out f) = take j [''dictionary'', ''dictionary'', ''train/crf1d/lbfgs'']"
    by blast
  from j(2) len
  have "length (take j [''dictionary'', ''dictionary'', ''train/crf1d/lbfgs'']) = 3" by metis
  with j(1) have "j = 3" by simp
  with j(2) run cr show ?thesis by simp
qed

end
